theory Spec2Isabelle
  imports Complex_Main
begin

section \<open>Numbers\<close>

text \<open>
  The component computes with JavaScript numbers. They are modelled by the reals, so
  rounding errors of the floating-point operations are not part of the model. A division
  whose divisor is zero leaves the reals (JavaScript yields an infinity or NaN there):
  \<open>js_div\<close> returns \<open>None\<close> in that case, and the value is not followed further.
  \<open>Math.round\<close> rounds to the nearest integer, a tie going up.
\<close>

definition js_div :: "real \<Rightarrow> real \<Rightarrow> real option" where
  "js_div a b = (if b = 0 then None else Some (a / b))"

definition Math_round :: "real \<Rightarrow> int" where
  "Math_round v = \<lfloor>v + 1 / 2\<rfloor>"

definition Math_ceil :: "real \<Rightarrow> int" where
  "Math_ceil v = \<lceil>v\<rceil>"

section \<open>Geographic normalisation and projection\<close>

definition normalizeLat :: "real \<Rightarrow> real" where
  "normalizeLat la = 90 - la"

definition normalizeLon :: "real \<Rightarrow> real" where
  "normalizeLon lo = 180 + lo"

record Coords =
  lat :: real
  lon :: real

text \<open>The object \<open>{x, y}\<close> of normalised coordinates.\<close>

record NormalizedCoords =
  nx :: real
  ny :: real

definition normalizeCoordinates :: "Coords \<Rightarrow> NormalizedCoords" where
  "normalizeCoordinates c = \<lparr>nx = normalizeLon (lon c), ny = normalizeLat (lat c)\<rparr>"

record GeoBounds =
  leftLon :: real
  rightLon :: real
  upperLat :: real
  lowerLat :: real

text \<open>
  The pixel \<open>{x, y}\<close> a coordinate is projected to. A component is \<open>None\<close> when its
  computation divided by zero (degenerate bounds).
\<close>

record CanvasPoint =
  px :: "int option"
  py :: "int option"

text \<open>
  A recording model of \<open>CanvasRenderingContext2D\<close>: the size of its canvas, the drawing
  state the component writes, the current path, and the log of the calls that paint.
\<close>

datatype path_cmd = MoveTo CanvasPoint | LineTo CanvasPoint

datatype draw_call =
    ClearRect real real real real
  | FillRect string real real real real
  | Stroke "path_cmd list" real string string string

record Context2D =
  canvasWidth :: nat
  canvasHeight :: nat
  lineWidth :: real
  lineCap :: string
  lineJoin :: string
  strokeStyle :: string
  fillStyle :: string
  path :: "path_cmd list"
  calls :: "draw_call list"

definition coordinatesToBoundedCanvasPoint ::
    "Coords \<Rightarrow> Context2D \<Rightarrow> GeoBounds \<Rightarrow> CanvasPoint" where
  "coordinatesToBoundedCanvasPoint c context geoBounds =
     (let normalizedCoords = normalizeCoordinates c;
          normalizedMinX = normalizeLon (leftLon geoBounds);
          normalizedMaxX = normalizeLon (rightLon geoBounds);
          normalizedMinY = normalizeLat (upperLat geoBounds);
          normalizedMaxY = normalizeLat (lowerLat geoBounds);
          xRange = normalizedMaxX - normalizedMinX;
          yRange = normalizedMaxY - normalizedMinY;
          xRelativeToBounds = js_div (nx normalizedCoords - normalizedMinX) xRange;
          yRelativeToBounds = js_div (ny normalizedCoords - normalizedMinY) yRange
      in \<lparr>px = map_option (\<lambda>f. Math_round (f * real (canvasWidth context))) xRelativeToBounds,
          py = map_option (\<lambda>f. Math_round (f * real (canvasHeight context))) yRelativeToBounds\<rparr>)"

section \<open>Surface sizing\<close>

definition MAX_WIDTH :: real where
  "MAX_WIDTH = 20000"

definition widthInDegrees :: "GeoBounds \<Rightarrow> real" where
  "widthInDegrees geoBounds = \<bar>leftLon geoBounds - rightLon geoBounds\<bar>"

definition heightInDegrees :: "GeoBounds \<Rightarrow> real" where
  "heightInDegrees geoBounds = \<bar>upperLat geoBounds - lowerLat geoBounds\<bar>"

definition aspectRatio :: "GeoBounds \<Rightarrow> real option" where
  "aspectRatio geoBounds = js_div (widthInDegrees geoBounds) (heightInDegrees geoBounds)"

definition effectiveWidth :: "GeoBounds \<Rightarrow> real \<Rightarrow> real" where
  "effectiveWidth geoBounds mapResolution =
     min (widthInDegrees geoBounds * mapResolution) MAX_WIDTH"

definition effectiveHeight :: "GeoBounds \<Rightarrow> real \<Rightarrow> real option" where
  "effectiveHeight geoBounds mapResolution =
     (case aspectRatio geoBounds of
        None \<Rightarrow> None
      | Some a \<Rightarrow> js_div (effectiveWidth geoBounds mapResolution) a)"

section \<open>Decimation of waypoints\<close>

text \<open>
  \<open>Array.prototype.filter\<close> hands the callback each element with its index.
  \<open>entries\<close> pairs every element with its index; \<open>keptEntries\<close> are the pairs the
  callback of \<open>renderRoutes\<close> accepts, and \<open>waypointsToRender\<close> their elements.
  For an empty array \<open>length - 1\<close> is \<open>-1\<close>, so the comparison is made on integers.
\<close>

definition renderEveryNthPoint :: "real \<Rightarrow> int" where
  "renderEveryNthPoint pathResolution = Math_ceil (1 / pathResolution)"

definition entries :: "'a list \<Rightarrow> (nat \<times> 'a) list" where
  "entries xs = zip [0..<length xs] xs"

definition keepIndex :: "int \<Rightarrow> nat \<Rightarrow> nat \<Rightarrow> bool" where
  "keepIndex k n i \<longleftrightarrow> i = 0 \<or> int i mod k = 0 \<or> int i = int n - 1"

definition keptEntries :: "real \<Rightarrow> 'a list \<Rightarrow> (nat \<times> 'a) list" where
  "keptEntries pathResolution xs =
     filter (\<lambda>(i, _). keepIndex (renderEveryNthPoint pathResolution) (length xs) i) (entries xs)"

definition waypointsToRender :: "real \<Rightarrow> 'a list \<Rightarrow> 'a list" where
  "waypointsToRender pathResolution xs = map snd (keptEntries pathResolution xs)"

section \<open>Routes and properties of the component\<close>

text \<open>
  A route as the renderer reads it. The fields \<open>startDate\<close> and \<open>type\<close> of the source
  are never read by the component and are left out; \<open>id\<close> is called \<open>routeId\<close>.
\<close>

record Route =
  routeId :: nat
  name :: string
  waypoints :: "Coords list"

text \<open>
  The properties of \<open>RouteMap\<close>, after the defaults of the parameter list have been
  filled in (so \<open>duration\<close> is always a number). Every function declared inside the
  component reads them from its closure; here they are the first argument.
  \<open>canvasStyles\<close> only styles the element and is left out.
\<close>

record Props =
  routes :: "Route list"
  geoBounds :: GeoBounds
  pathResolution :: real
  duration :: real
  thickness :: real
  mapResolution :: real
  bgColor :: "string option"
  pathColor :: string

section \<open>The drawing surface\<close>

definition clearRect :: "real \<Rightarrow> real \<Rightarrow> real \<Rightarrow> real \<Rightarrow> Context2D \<Rightarrow> Context2D" where
  "clearRect a b w h context = context\<lparr>calls := calls context @ [ClearRect a b w h]\<rparr>"

definition fillRect :: "real \<Rightarrow> real \<Rightarrow> real \<Rightarrow> real \<Rightarrow> Context2D \<Rightarrow> Context2D" where
  "fillRect a b w h context =
     context\<lparr>calls := calls context @ [FillRect (fillStyle context) a b w h]\<rparr>"

definition beginPath :: "Context2D \<Rightarrow> Context2D" where
  "beginPath context = context\<lparr>path := []\<rparr>"

definition moveTo :: "CanvasPoint \<Rightarrow> Context2D \<Rightarrow> Context2D" where
  "moveTo p context = context\<lparr>path := path context @ [MoveTo p]\<rparr>"

definition lineTo :: "CanvasPoint \<Rightarrow> Context2D \<Rightarrow> Context2D" where
  "lineTo p context = context\<lparr>path := path context @ [LineTo p]\<rparr>"

definition stroke :: "Context2D \<Rightarrow> Context2D" where
  "stroke context =
     context\<lparr>calls := calls context @
       [Stroke (path context) (lineWidth context) (lineCap context) (lineJoin context)
          (strokeStyle context)]\<rparr>"

section \<open>Drawing one segment\<close>

datatype error = InvalidPathResolution | TypeError

text \<open>Reading an array at an index: \<open>undefined\<close> (here \<open>None\<close>) outside the array.\<close>

definition at_index :: "'a list \<Rightarrow> nat \<Rightarrow> 'a option" where
  "at_index xs i = (if i < length xs then Some (xs ! i) else None)"

text \<open>
  \<open>paintPath\<close> is the body of \<open>addPath\<close> for two waypoints that exist. \<open>addPath\<close> itself
  receives what the array reads gave it: destructuring \<open>{lat, lon}\<close> of \<open>undefined\<close> raises
  a TypeError, for either argument before the context has been touched.
\<close>

definition paintPath :: "Props \<Rightarrow> Coords \<Rightarrow> Coords \<Rightarrow> Context2D \<Rightarrow> Context2D" where
  "paintPath props src dst context =
     (let fromP = coordinatesToBoundedCanvasPoint src context (geoBounds props);
          toP = coordinatesToBoundedCanvasPoint dst context (geoBounds props)
      in stroke (lineTo toP (moveTo fromP (beginPath
           (context\<lparr>lineWidth := thickness props, lineCap := ''round'',
              lineJoin := ''round'', strokeStyle := pathColor props\<rparr>)))))"

definition addPath ::
    "Props \<Rightarrow> Coords option \<Rightarrow> Coords option \<Rightarrow> Context2D \<Rightarrow> error + Context2D" where
  "addPath props src dst context =
     (case src of
        None \<Rightarrow> Inl TypeError
      | Some f \<Rightarrow>
          (case dst of
             None \<Rightarrow> Inl TypeError
           | Some t \<Rightarrow> Inr (paintPath props f t context)))"

section \<open>Animated rendering of one route\<close>

text \<open>
  One run of the frame callback \<open>step\<close> is a tick. The host passes the callback a
  \<open>timestamp\<close>; \<open>now\<close> is what \<open>performance.now()\<close> returns while the callback runs (the
  callback only ever reads back the last value it stored, so one reading per tick is
  enough).
\<close>

record Tick =
  timestamp :: real
  now :: real

text \<open>The variables of the closure that \<open>step\<close> updates.\<close>

record AnimState =
  waypointIndex :: nat
  lastPointAddedAtTime :: "real option"

text \<open>
  \<open>delay\<close> is \<open>(duration / pointsToRender) * 0.8\<close>. For an empty array the division is by
  zero and the delay is infinite (\<open>None\<close>).
\<close>

definition delay :: "Props \<Rightarrow> Coords list \<Rightarrow> real option" where
  "delay props ws =
     map_option (\<lambda>q. q * (8 / 10)) (js_div (duration props) (real (length ws)))"

text \<open>
  A failure carries the context as it was when the exception was raised.
\<close>

type_synonym 'a result = "(error \<times> Context2D) + 'a"

text \<open>
  The loop \<open>for (let i = 0; i < numPointsToRenderThisFrame; i += 1)\<close>; the fourth
  argument is the number of iterations left.
\<close>

fun catchUp ::
    "Props \<Rightarrow> Coords list \<Rightarrow> Tick \<Rightarrow> nat \<Rightarrow> AnimState \<times> Context2D \<Rightarrow>
     (AnimState \<times> Context2D) result" where
  "catchUp props ws tk 0 (st, context) = Inr (st, context)"
| "catchUp props ws tk (Suc i) (st, context) =
     (case at_index ws (waypointIndex st) of
        None \<Rightarrow> catchUp props ws tk i (st, context)
      | Some wp \<Rightarrow>
          (case addPath props (at_index ws (waypointIndex st - 1)) (Some wp) context of
             Inl e \<Rightarrow> Inl (e, context)
           | Inr context' \<Rightarrow>
               catchUp props ws tk i
                 (st\<lparr>waypointIndex := waypointIndex st + 1,
                     lastPointAddedAtTime := Some (now tk)\<rparr>, context')))"

text \<open>
  The body of \<open>step\<close> up to the test that reschedules or resolves. With an infinite delay
  the catch-up branch draws nothing: either the comparison fails (delay \<open>+\<infinity>\<close>) or the
  number of points is \<open>\<lceil>-0\<rceil> = 0\<close> (delay \<open>-\<infinity>\<close>). A delay of zero does not occur: it
  needs a duration of zero, for which \<open>renderRoutes\<close> does not animate.
\<close>

definition step ::
    "Props \<Rightarrow> Coords list \<Rightarrow> Tick \<Rightarrow> AnimState \<times> Context2D \<Rightarrow>
     (AnimState \<times> Context2D) result" where
  "step props ws tk sc =
     (case sc of (st, context) \<Rightarrow>
       (case lastPointAddedAtTime st of
          None \<Rightarrow>
            (case addPath props (at_index ws (waypointIndex st - 1))
                    (at_index ws (waypointIndex st)) context of
               Inl e \<Rightarrow> Inl (e, context)
             | Inr context' \<Rightarrow>
                 Inr (st\<lparr>waypointIndex := waypointIndex st + 1,
                          lastPointAddedAtTime := Some (now tk)\<rparr>, context'))
        | Some t \<Rightarrow>
            (case delay props ws of
               None \<Rightarrow> Inr (st, context)
             | Some d \<Rightarrow>
                 (let timeDiff = timestamp tk - t in
                  if timeDiff \<ge> d then
                    (let numPointsToRenderThisFrame = Math_ceil (timeDiff / d)
                     in catchUp props ws tk (nat numPointsToRenderThisFrame) (st, context))
                  else Inr (st, context)))))"

section \<open>Rendering all routes\<close>

text \<open>
  An animation in flight: the waypoints being animated, the closure variables of its
  \<open>step\<close>, and the routes that \<open>renderRoutes\<close> still has to render once the awaited
  promise resolves.
\<close>

record Task =
  taskWaypoints :: "Coords list"
  taskState :: AnimState
  taskRest :: "Route list"

text \<open>
  Where a call of \<open>renderRoutes\<close> stands: it returned \<open>null\<close> for want of a surface, it
  ran to its end, its promise was rejected by an exception, it awaits the next animation
  frame, or a frame callback raised an exception, after which no frame is requested and
  the awaited promise never resolves.
\<close>

datatype RenderResult =
    ReturnedNull
  | Completed Context2D
  | Rejected error Context2D
  | Awaiting Task Context2D
  | Stalled error Context2D

text \<open>The loop \<open>for (let i = 1; i < waypointsToRender.length; i += 1)\<close> from index \<open>i\<close> on.\<close>

function drawAll :: "Props \<Rightarrow> Coords list \<Rightarrow> nat \<Rightarrow> Context2D \<Rightarrow> Context2D result" where
  "drawAll props ws i context =
     (if i < length ws then
        (case addPath props (at_index ws (i - 1)) (at_index ws i) context of
           Inl e \<Rightarrow> Inl (e, context)
         | Inr context' \<Rightarrow> drawAll props ws (i + 1) context')
      else Inr context)"
  by pat_completeness auto
termination
  by (relation "measure (\<lambda>(props, ws, i, context). length ws - i)") auto

text \<open>
  \<open>animateRenderWaypoints\<close> sets up the closure of \<open>step\<close> and requests the first frame.
\<close>

definition animateRenderWaypoints :: "Coords list \<Rightarrow> Route list \<Rightarrow> Task" where
  "animateRenderWaypoints ws rest =
     \<lparr>taskWaypoints = ws,
      taskState = \<lparr>waypointIndex = 1, lastPointAddedAtTime = None\<rparr>,
      taskRest = rest\<rparr>"

text \<open>
  The loop \<open>for (const route of routesToRender)\<close>, run until it ends, throws or awaits.
  The context is the one \<open>renderRoutes\<close> obtained before the loop, so the test of
  \<open>routeContext\<close> for \<open>null\<close> cannot fail here.
\<close>

fun routeLoop :: "Props \<Rightarrow> Route list \<Rightarrow> Context2D \<Rightarrow> RenderResult" where
  "routeLoop props [] context = Completed context"
| "routeLoop props (route # rest) context =
     (if pathResolution props \<le> 0 \<or> pathResolution props > 1 then
        Rejected InvalidPathResolution context
      else
        (let waypointsToRender' = waypointsToRender (pathResolution props) (waypoints route)
         in if duration props = 0 then
              (case drawAll props waypointsToRender' 1 context of
                 Inl (e, context') \<Rightarrow> Rejected e context'
               | Inr context' \<Rightarrow> routeLoop props rest context')
            else Awaiting (animateRenderWaypoints waypointsToRender' rest) context))"

text \<open>
  The start of \<open>renderRoutes\<close>: the whole canvas is cleared, and filled when a background
  colour is given. An empty colour string is falsy, like \<open>null\<close>.
\<close>

definition paintBackground :: "Props \<Rightarrow> Context2D \<Rightarrow> Context2D" where
  "paintBackground props bgContext =
     (let cleared = clearRect 0 0 (real (canvasWidth bgContext))
                      (real (canvasHeight bgContext)) bgContext
      in case bgColor props of
           None \<Rightarrow> cleared
         | Some colour \<Rightarrow>
             if colour = [] then cleared
             else fillRect 0 0 (real (canvasWidth bgContext)) (real (canvasHeight bgContext))
                    (cleared\<lparr>fillStyle := colour\<rparr>))"

text \<open>
  \<open>renderRoutes\<close> up to its first await. The argument is the 2d context of the canvas of
  \<open>canvasRef\<close>, \<open>None\<close> when the canvas or its context is \<open>null\<close>.
\<close>

definition renderRoutes :: "Props \<Rightarrow> Route list \<Rightarrow> Context2D option \<Rightarrow> RenderResult" where
  "renderRoutes props routesToRender canvas =
     (case canvas of
        None \<Rightarrow> ReturnedNull
      | Some bgContext \<Rightarrow> routeLoop props routesToRender (paintBackground props bgContext))"

text \<open>
  A frame callback of an animation in flight: \<open>step\<close>, then either the next frame is
  requested, or the promise resolves and \<open>renderRoutes\<close> goes on with the next route.
\<close>

definition frameCallback :: "Props \<Rightarrow> Task \<Rightarrow> Tick \<Rightarrow> Context2D \<Rightarrow> RenderResult" where
  "frameCallback props task tk context =
     (case step props (taskWaypoints task) tk (taskState task, context) of
        Inl (e, context') \<Rightarrow> Stalled e context'
      | Inr (st, context') \<Rightarrow>
          if waypointIndex st < length (taskWaypoints task) then
            Awaiting (task\<lparr>taskState := st\<rparr>) context'
          else routeLoop props (taskRest task) context')"

text \<open>A render call followed by the animation frames the host delivers to it.\<close>

fun runFrames :: "Props \<Rightarrow> Tick list \<Rightarrow> RenderResult \<Rightarrow> RenderResult" where
  "runFrames props [] r = r"
| "runFrames props (tk # tks) (Awaiting task context) =
     runFrames props tks (frameCallback props task tk context)"
| "runFrames props (tk # tks) r = r"

section \<open>Terms of the statements\<close>

text \<open>
  The segments of a waypoint sequence in drawing order, painting a list of segments, and
  all segments of a list of routes after decimation, route by route.
\<close>

definition segments :: "'a list \<Rightarrow> ('a \<times> 'a) list" where
  "segments ws = zip ws (tl ws)"

definition paintAll :: "Props \<Rightarrow> (Coords \<times> Coords) list \<Rightarrow> Context2D \<Rightarrow> Context2D" where
  "paintAll props segs context = foldl (\<lambda>c (a, b). paintPath props a b c) context segs"

definition routeSegments :: "Props \<Rightarrow> Route \<Rightarrow> (Coords \<times> Coords) list" where
  "routeSegments props route =
     segments (waypointsToRender (pathResolution props) (waypoints route))"

definition allSegments :: "Props \<Rightarrow> Route list \<Rightarrow> (Coords \<times> Coords) list" where
  "allSegments props rs = concat (map (routeSegments props) rs)"

text \<open>The call that painting one segment adds to the log of the surface.\<close>

definition strokeOf :: "Props \<Rightarrow> Context2D \<Rightarrow> Coords \<times> Coords \<Rightarrow> draw_call" where
  "strokeOf props context seg =
     Stroke [MoveTo (coordinatesToBoundedCanvasPoint (fst seg) context (geoBounds props)),
             LineTo (coordinatesToBoundedCanvasPoint (snd seg) context (geoBounds props))]
       (thickness props) ''round'' ''round'' (pathColor props)"

text \<open>
  The context of a render call, and the segments an animation in flight has yet to draw:
  those of the route being animated from its cursor on, then those of the routes that
  wait.
\<close>

fun resultContext :: "RenderResult \<Rightarrow> Context2D option" where
  "resultContext ReturnedNull = None"
| "resultContext (Completed context) = Some context"
| "resultContext (Rejected e context) = Some context"
| "resultContext (Awaiting task context) = Some context"
| "resultContext (Stalled e context) = Some context"

fun remaining :: "Props \<Rightarrow> RenderResult \<Rightarrow> (Coords \<times> Coords) list" where
  "remaining props (Awaiting task context) =
     drop (waypointIndex (taskState task) - 1) (segments (taskWaypoints task)) @
     allSegments props (taskRest task)"
| "remaining props r = []"

text \<open>
  Ticks that come at least \<open>d\<close> after the clock reading of the tick before them, the
  first one at least \<open>d\<close> after \<open>prev\<close>.
\<close>

fun spaced :: "real \<Rightarrow> real \<Rightarrow> Tick list \<Rightarrow> bool" where
  "spaced d prev [] = True"
| "spaced d prev (tk # tks) = (prev + d \<le> timestamp tk \<and> spaced d (now tk) tks)"

text \<open>
  \<open>advances props r r'\<close>: from \<open>r\<close> the render call has gone on to \<open>r'\<close> by painting, in
  their order, the next \<open>k\<close> of the segments that \<open>r\<close> had yet to draw. It is used in the
  proofs only.
\<close>

definition advances :: "Props \<Rightarrow> RenderResult \<Rightarrow> RenderResult \<Rightarrow> bool" where
  "advances props r r' \<longleftrightarrow>
     (\<exists>k. resultContext r' =
            map_option (paintAll props (take k (remaining props r))) (resultContext r) \<and>
          (case r' of
             Completed _ \<Rightarrow> length (remaining props r) \<le> k
           | Awaiting task _ \<Rightarrow>
               remaining props r' = drop k (remaining props r) \<and>
               1 \<le> waypointIndex (taskState task)
           | _ \<Rightarrow> True))"

section \<open>The effect that re-renders, and the animation frames of the window\<close>

text \<open>
  The part of the window the component uses. \<open>requestAnimationFrame\<close> returns handles that
  count up by one for each request; a pending callback is kept with its handle and with
  what its closure holds: the properties of the render that requested it and the
  animation it belongs to. All renders draw on the context of the one canvas.
\<close>

record Window =
  nextHandle :: nat
  frames :: "(nat \<times> Props \<times> Task) list"
  surface :: "Context2D option"

definition requestAnimationFrame :: "Props \<Rightarrow> Task \<Rightarrow> Window \<Rightarrow> Window" where
  "requestAnimationFrame props task w =
     w\<lparr>nextHandle := nextHandle w + 1,
       frames := frames w @ [(nextHandle w, props, task)]\<rparr>"

definition cancelAnimationFrame :: "nat \<Rightarrow> Window \<Rightarrow> Window" where
  "cancelAnimationFrame i w = w\<lparr>frames := filter (\<lambda>(h, _). h \<noteq> i) (frames w)\<rparr>"

text \<open>The component sets no interval, so clearing one changes nothing it can observe.\<close>

definition clearInterval :: "nat \<Rightarrow> Window \<Rightarrow> Window" where
  "clearInterval i w = w"

text \<open>
  The loop \<open>for (var i = 1; i < 99999; i++)\<close> of the effect, from \<open>i\<close> on.
\<close>

function cancelAll :: "nat \<Rightarrow> Window \<Rightarrow> Window" where
  "cancelAll i w =
     (if i < 99999 then cancelAll (i + 1) (cancelAnimationFrame i (clearInterval i w)) else w)"
  by pat_completeness auto
termination
  by (relation "measure (\<lambda>(i, w). 99999 - i)") auto

text \<open>
  What a render call leaves in the window when it returns to the host: the surface as
  painted so far and, when it awaits a frame, the callback it requested.
\<close>

definition settle :: "Props \<Rightarrow> RenderResult \<Rightarrow> Window \<Rightarrow> Window" where
  "settle props r w =
     (case r of
        ReturnedNull \<Rightarrow> w
      | Completed context \<Rightarrow> w\<lparr>surface := Some context\<rparr>
      | Rejected e context \<Rightarrow> w\<lparr>surface := Some context\<rparr>
      | Stalled e context \<Rightarrow> w\<lparr>surface := Some context\<rparr>
      | Awaiting task context \<Rightarrow>
          requestAnimationFrame props task (w\<lparr>surface := Some context\<rparr>))"

text \<open>The effect of \<open>RouteMap\<close>: the sweep over the handles, then \<open>renderRoutes(routes)\<close>.\<close>

definition useEffect :: "Props \<Rightarrow> Window \<Rightarrow> Window" where
  "useEffect props w =
     (let w' = cancelAll 1 w
      in settle props (renderRoutes props (routes props) (surface w')) w')"

text \<open>
  An animation frame of the host: the callbacks that were pending when the frame began
  run in the order of their requests; what they request is due in the next frame.
\<close>

fun runCallbacks :: "Tick \<Rightarrow> (nat \<times> Props \<times> Task) list \<Rightarrow> Window \<Rightarrow> Window" where
  "runCallbacks tk [] w = w"
| "runCallbacks tk ((h, props, task) # cbs) w =
     runCallbacks tk cbs
       (case surface w of
          None \<Rightarrow> w
        | Some context \<Rightarrow> settle props (frameCallback props task tk context) w)"

definition animationFrame :: "Tick \<Rightarrow> Window \<Rightarrow> Window" where
  "animationFrame tk w = runCallbacks tk (frames w) (w\<lparr>frames := []\<rparr>)"

section \<open>Fixtures of the examples\<close>

text \<open>
  A context as \<open>getContext\<close> first hands it out for a canvas of the given size, the bounds
  of the projection example, the default properties of the component, four routes, two
  ticks a second apart, and two windows: one that has handed out no handle yet and one
  that has handed out 99998 of them.
\<close>

definition freshContext :: "nat \<Rightarrow> nat \<Rightarrow> Context2D" where
  "freshContext w h =
     \<lparr>canvasWidth = w, canvasHeight = h, lineWidth = 1, lineCap = ''butt'',
      lineJoin = ''miter'', strokeStyle = ''#000000'', fillStyle = ''#000000'',
      path = [], calls = []\<rparr>"

definition squareBounds :: GeoBounds where
  "squareBounds = \<lparr>leftLon = -10, rightLon = 10, upperLat = 10, lowerLat = -10\<rparr>"

definition sampleProps :: Props where
  "sampleProps =
     \<lparr>routes = [], geoBounds = squareBounds, pathResolution = 1, duration = 750,
      thickness = 1, mapResolution = 5000, bgColor = None,
      pathColor = ''rgb(0,0,0,0.25)''\<rparr>"

definition routeA :: Route where
  "routeA = \<lparr>routeId = 1, name = ''A'',
     waypoints = [\<lparr>lat = 0, lon = 0\<rparr>, \<lparr>lat = 5, lon = 5\<rparr>, \<lparr>lat = 10, lon = -10\<rparr>]\<rparr>"

definition routeB :: Route where
  "routeB = \<lparr>routeId = 2, name = ''B'',
     waypoints = [\<lparr>lat = -10, lon = -10\<rparr>, \<lparr>lat = -5, lon = 10\<rparr>]\<rparr>"

definition pointRoute :: Route where
  "pointRoute = \<lparr>routeId = 3, name = ''P'', waypoints = [\<lparr>lat = 0, lon = 0\<rparr>]\<rparr>"

definition longRoute :: Route where
  "longRoute = \<lparr>routeId = 4, name = ''L'',
     waypoints = [\<lparr>lat = 0, lon = 0\<rparr>, \<lparr>lat = 2, lon = 2\<rparr>, \<lparr>lat = 4, lon = 4\<rparr>,
                  \<lparr>lat = 6, lon = 6\<rparr>, \<lparr>lat = 8, lon = 8\<rparr>]\<rparr>"

definition sampleTicks :: "Tick list" where
  "sampleTicks = [\<lparr>timestamp = 0, now = 1\<rparr>, \<lparr>timestamp = 1000, now = 1001\<rparr>]"

definition propsA :: Props where
  "propsA = sampleProps\<lparr>routes := [routeA]\<rparr>"

definition propsB :: Props where
  "propsB = sampleProps\<lparr>routes := [routeB]\<rparr>"

definition earlyWindow :: Window where
  "earlyWindow = \<lparr>nextHandle = 1, frames = [], surface = Some (freshContext 100 100)\<rparr>"

definition lateWindow :: Window where
  "lateWindow = \<lparr>nextHandle = 99999, frames = [], surface = Some (freshContext 100 100)\<rparr>"

section \<open>Projection\<close>

text \<open>
  C1. With the bounds from -10 to 10 degrees in both directions and a surface of 100 by
  100 pixels, the coordinate (0, 0) is projected to the pixel (50, 50) and the upper left
  corner (lat 10, lon -10) to the pixel (0, 0). For every coordinate and all bounds with
  \<open>leftLon < rightLon\<close> and \<open>lowerLat < upperLat\<close> the pixel is the rounded fraction of the
  normalised ranges times the width, respectively the height, of the surface.
\<close>

theorem projection_correct:
  assumes "canvasWidth s = 100" and "canvasHeight s = 100"
    and "leftLon g < rightLon g" and "lowerLat g < upperLat g"
  shows "coordinatesToBoundedCanvasPoint \<lparr>lat = 0, lon = 0\<rparr> s
             \<lparr>leftLon = -10, rightLon = 10, upperLat = 10, lowerLat = -10\<rparr> =
           \<lparr>px = Some 50, py = Some 50\<rparr> \<and>
         coordinatesToBoundedCanvasPoint \<lparr>lat = 10, lon = -10\<rparr> s
             \<lparr>leftLon = -10, rightLon = 10, upperLat = 10, lowerLat = -10\<rparr> =
           \<lparr>px = Some 0, py = Some 0\<rparr> \<and>
         coordinatesToBoundedCanvasPoint c context g =
           \<lparr>px = Some (round (((180 + lon c) - (180 + leftLon g)) /
                   ((180 + rightLon g) - (180 + leftLon g)) * real (canvasWidth context))),
            py = Some (round (((90 - lat c) - (90 - upperLat g)) /
                   ((90 - lowerLat g) - (90 - upperLat g)) * real (canvasHeight context)))\<rparr>"
proof -
  have "coordinatesToBoundedCanvasPoint \<lparr>lat = 0, lon = 0\<rparr> s
             \<lparr>leftLon = -10, rightLon = 10, upperLat = 10, lowerLat = -10\<rparr> =
      \<lparr>px = Some 50, py = Some 50\<rparr>"
    using assms(1,2)
    by (simp add: coordinatesToBoundedCanvasPoint_def normalizeCoordinates_def
        normalizeLat_def normalizeLon_def js_div_def Math_round_def)
  moreover have "coordinatesToBoundedCanvasPoint \<lparr>lat = 10, lon = -10\<rparr> s
             \<lparr>leftLon = -10, rightLon = 10, upperLat = 10, lowerLat = -10\<rparr> =
      \<lparr>px = Some 0, py = Some 0\<rparr>"
    using assms(1,2)
    by (simp add: coordinatesToBoundedCanvasPoint_def normalizeCoordinates_def
        normalizeLat_def normalizeLon_def js_div_def Math_round_def)
  moreover have "coordinatesToBoundedCanvasPoint c context g =
      \<lparr>px = Some (round (((180 + lon c) - (180 + leftLon g)) /
              ((180 + rightLon g) - (180 + leftLon g)) * real (canvasWidth context))),
       py = Some (round (((90 - lat c) - (90 - upperLat g)) /
              ((90 - lowerLat g) - (90 - upperLat g)) * real (canvasHeight context)))\<rparr>"
    using assms(3,4)
    by (simp add: coordinatesToBoundedCanvasPoint_def normalizeCoordinates_def
        normalizeLat_def normalizeLon_def js_div_def Math_round_def round_def)
  ultimately show ?thesis by simp
qed

theorem projection_correct_witness:
  "canvasWidth (freshContext 100 100) = 100 \<and> canvasHeight (freshContext 100 100) = 100 \<and>
   leftLon squareBounds < rightLon squareBounds \<and>
   lowerLat squareBounds < upperLat squareBounds \<and>
   coordinatesToBoundedCanvasPoint \<lparr>lat = 0, lon = 0\<rparr> (freshContext 100 100) squareBounds =
     \<lparr>px = Some 50, py = Some 50\<rparr> \<and>
   coordinatesToBoundedCanvasPoint \<lparr>lat = 10, lon = -10\<rparr> (freshContext 100 100) squareBounds =
     \<lparr>px = Some 0, py = Some 0\<rparr> \<and>
   coordinatesToBoundedCanvasPoint \<lparr>lat = -5, lon = 5\<rparr> (freshContext 100 100) squareBounds =
     \<lparr>px = Some 75, py = Some 75\<rparr>"
  using projection_correct [of "freshContext 100 100" squareBounds
      "\<lparr>lat = -5, lon = 5\<rparr>" "freshContext 100 100"]
  by (simp add: freshContext_def squareBounds_def)

section \<open>Surface sizing\<close>

text \<open>
  C7. The width of the surface is the smaller of \<open>|leftLon - rightLon| * pixelsPerDegree\<close>
  and 20000, so it never exceeds 20000 for any bounds and any pixels per degree; for
  bounds with \<open>leftLon < rightLon\<close> and \<open>lowerLat < upperLat\<close> the height is the width
  divided by the aspect ratio \<open>|leftLon - rightLon| / |upperLat - lowerLat|\<close>.
\<close>

theorem surface_sizing:
  "effectiveWidth g ppd = min (\<bar>leftLon g - rightLon g\<bar> * ppd) 20000 \<and>
   effectiveWidth g ppd \<le> 20000 \<and>
   (leftLon g < rightLon g \<and> lowerLat g < upperLat g \<longrightarrow>
     effectiveHeight g ppd =
       Some (effectiveWidth g ppd / (\<bar>leftLon g - rightLon g\<bar> / \<bar>upperLat g - lowerLat g\<bar>)))"
  by (simp add: effectiveWidth_def effectiveHeight_def aspectRatio_def js_div_def
      MAX_WIDTH_def widthInDegrees_def heightInDegrees_def)

theorem surface_sizing_witness:
  "effectiveWidth \<lparr>leftLon = -180, rightLon = 180, upperLat = 90, lowerLat = -90\<rparr> 5000 = 20000 \<and>
   effectiveHeight \<lparr>leftLon = -180, rightLon = 180, upperLat = 90, lowerLat = -90\<rparr> 5000 =
     Some 10000"
  using surface_sizing [of "\<lparr>leftLon = -180, rightLon = 180, upperLat = 90, lowerLat = -90\<rparr>" 5000]
  by simp

section \<open>Decimation\<close>

lemma renderEveryNthPoint_pos: "0 < r \<Longrightarrow> r \<le> 1 \<Longrightarrow> 1 \<le> renderEveryNthPoint r"
  by (simp add: renderEveryNthPoint_def Math_ceil_def)

lemma renderEveryNthPoint_antimono:
  "0 < r1 \<Longrightarrow> r1 \<le> r2 \<Longrightarrow> renderEveryNthPoint r2 \<le> renderEveryNthPoint r1"
  by (simp add: renderEveryNthPoint_def Math_ceil_def ceiling_mono frac_le)

lemma keepIndex_last: "keepIndex k (Suc m) m"
  by (simp add: keepIndex_def)

lemma keepIndex_dvd:
  assumes "1 \<le> k" and "i < m"
  shows "keepIndex k (Suc m) i \<longleftrightarrow> nat k dvd i"
proof -
  have "int i mod k = 0 \<longleftrightarrow> int (nat k) dvd int i"
    using assms(1) by (simp add: dvd_eq_mod_eq_0)
  also have "\<dots> \<longleftrightarrow> nat k dvd i"
    by (simp only: int_dvd_int_iff)
  finally show ?thesis
    using assms(2) by (auto simp: keepIndex_def)
qed

lemma map_fst_filter_zip:
  "length js = length xs \<Longrightarrow>
   map fst (filter (\<lambda>(i, _). P i) (zip js xs)) = filter P js"
  by (induction js xs rule: list_induct2) auto

lemma keptEntries_indices:
  "map fst (keptEntries r xs) =
     filter (keepIndex (renderEveryNthPoint r) (length xs)) [0..<length xs]"
  by (simp add: keptEntries_def entries_def map_fst_filter_zip)

lemma length_waypointsToRender:
  "length (waypointsToRender r xs) =
     length (filter (keepIndex (renderEveryNthPoint r) (length xs)) [0..<length xs])"
proof -
  have "length (waypointsToRender r xs) = length (map fst (keptEntries r xs))"
    by (simp add: waypointsToRender_def)
  then show ?thesis
    by (simp only: keptEntries_indices)
qed

lemma count_multiples:
  "0 < K \<Longrightarrow>
   length (filter (\<lambda>i. K dvd i) [0..<m]) = (if m = 0 then 0 else (m - 1) div K + 1)"
proof (induction m)
  case 0
  then show ?case by simp
next
  case (Suc m)
  have unroll: "length (filter (\<lambda>i. K dvd i) [0..<Suc m]) =
      length (filter (\<lambda>i. K dvd i) [0..<m]) + (if K dvd m then 1 else 0)"
    by simp
  show ?case
  proof (cases m)
    case 0
    then show ?thesis by simp
  next
    case (Suc j)
    have "Suc j div K = (if K dvd Suc j then Suc (j div K) else j div K)"
      by (simp add: div_Suc dvd_eq_mod_eq_0)
    moreover have "length (filter (\<lambda>i. K dvd i) [0..<m]) = j div K + 1"
      using Suc.IH[OF Suc.prems] Suc by simp
    ultimately show ?thesis
      unfolding unroll using Suc by simp
  qed
qed

lemma length_kept:
  assumes "1 \<le> k"
  shows "length (filter (keepIndex k n) [0..<n]) =
     (if n = 0 then 0 else if n = 1 then 1 else (n - 2) div nat k + 2)"
proof (cases n)
  case 0
  then show ?thesis by simp
next
  case (Suc m)
  have "filter (keepIndex k (Suc m)) [0..<m] = filter (\<lambda>i. nat k dvd i) [0..<m]"
    using assms by (intro filter_cong refl) (simp add: keepIndex_dvd)
  then have "length (filter (keepIndex k (Suc m)) [0..<Suc m]) =
      length (filter (\<lambda>i. nat k dvd i) [0..<m]) + 1"
    by (simp add: keepIndex_last)
  also have "\<dots> = (if m = 0 then 0 else (m - 1) div nat k + 1) + 1"
    using assms by (subst count_multiples) auto
  finally show ?thesis
    using Suc by (auto simp: numeral_2_eq_2)
qed

lemma entries_nth: "i < length xs \<Longrightarrow> (i, xs ! i) \<in> set (entries xs)"
  unfolding entries_def in_set_zip by (intro exI[of _ i]) simp

lemma hd_waypointsToRender: "xs \<noteq> [] \<Longrightarrow> hd (waypointsToRender r xs) = hd xs"
  by (cases xs)
    (simp_all del: upt_Suc
      add: waypointsToRender_def keptEntries_def entries_def upt_conv_Cons keepIndex_def)

lemma last_waypointsToRender: "xs \<noteq> [] \<Longrightarrow> last (waypointsToRender r xs) = last xs"
  by (cases xs rule: rev_cases)
    (simp_all add: waypointsToRender_def keptEntries_def entries_def keepIndex_def)

text \<open>
  C3. For every waypoint sequence of length \<open>n \<ge> 2\<close> and every resolution in \<open>(0, 1]\<close>, the
  filter keeps the entry at index 0 and the entry at index \<open>n - 1\<close>; they are the first
  and the last waypoint of the decimated sequence.
\<close>

theorem decimation_keeps_endpoints:
  assumes "2 \<le> length xs" and "0 < r" and "r \<le> 1"
  shows "(0, xs ! 0) \<in> set (keptEntries r xs) \<and>
         (length xs - 1, xs ! (length xs - 1)) \<in> set (keptEntries r xs) \<and>
         hd (waypointsToRender r xs) = xs ! 0 \<and>
         last (waypointsToRender r xs) = xs ! (length xs - 1)"
proof -
  have ne: "xs \<noteq> []"
    using assms(1) by auto
  have "0 < length xs" and "length xs - 1 < length xs"
    using assms(1) by linarith+
  then have "(0, xs ! 0) \<in> set (entries xs)"
    and "(length xs - 1, xs ! (length xs - 1)) \<in> set (entries xs)"
    by (simp_all only: entries_nth)
  moreover have "int (length xs - 1) = int (length xs) - 1"
    using assms(1) by simp
  ultimately have "(0, xs ! 0) \<in> set (keptEntries r xs)"
    and "(length xs - 1, xs ! (length xs - 1)) \<in> set (keptEntries r xs)"
    by (simp_all add: keptEntries_def keepIndex_def)
  moreover have "hd (waypointsToRender r xs) = xs ! 0"
    using ne by (simp add: hd_waypointsToRender hd_conv_nth)
  moreover have "last (waypointsToRender r xs) = xs ! (length xs - 1)"
    using ne by (simp add: last_waypointsToRender last_conv_nth)
  ultimately show ?thesis by simp
qed

theorem decimation_keeps_endpoints_witness:
  "2 \<le> length [10, 11, 12, 13, 14 :: int] \<and> (0 :: real) < 1 / 3 \<and> (1 / 3 :: real) \<le> 1 \<and>
   (0, 10) \<in> set (keptEntries (1 / 3) [10, 11, 12, 13, 14 :: int]) \<and>
   (4, 14) \<in> set (keptEntries (1 / 3) [10, 11, 12, 13, 14 :: int]) \<and>
   hd (waypointsToRender (1 / 3) [10, 11, 12, 13, 14 :: int]) = 10 \<and>
   last (waypointsToRender (1 / 3) [10, 11, 12, 13, 14 :: int]) = 14"
  using decimation_keeps_endpoints [of "[10, 11, 12, 13, 14 :: int]" "1 / 3"]
  by (simp add: eval_nat_numeral)

text \<open>
  C8. For a fixed waypoint sequence, the decimated sequence does not get shorter when the
  resolution grows within \<open>(0, 1]\<close>.
\<close>

theorem decimation_monotonic_density:
  assumes "0 < r1" and "r1 \<le> r2" and "r2 \<le> 1"
  shows "length (waypointsToRender r1 xs) \<le> length (waypointsToRender r2 xs)"
proof -
  let ?k1 = "renderEveryNthPoint r1" and ?k2 = "renderEveryNthPoint r2"
  have k1: "1 \<le> ?k1" and k2: "1 \<le> ?k2"
    using assms by (auto intro: renderEveryNthPoint_pos)
  have "?k2 \<le> ?k1"
    using assms by (intro renderEveryNthPoint_antimono)
  then have "(length xs - 2) div nat ?k1 \<le> (length xs - 2) div nat ?k2"
    using k2 by (intro div_le_mono2) auto
  then show ?thesis
    by (simp add: length_waypointsToRender length_kept[OF k1] length_kept[OF k2])
qed

theorem decimation_monotonic_density_witness:
  "(0 :: real) < 1 / 3 \<and> (1 / 3 :: real) \<le> 1 / 2 \<and> (1 / 2 :: real) \<le> 1 \<and>
   length (waypointsToRender (1 / 3) [0, 1, 2, 3, 4, 5, 6 :: nat]) \<le>
   length (waypointsToRender (1 / 2) [0, 1, 2, 3, 4, 5, 6 :: nat])"
  using decimation_monotonic_density [of "1 / 3" "1 / 2" "[0, 1, 2, 3, 4, 5, 6 :: nat]"]
  by simp

section \<open>Painting segments\<close>

declare drawAll.simps [simp del]

declare cancelAll.simps [simp del]

lemma paintAll_Nil: "paintAll props [] c = c"
  by (simp add: paintAll_def)

lemma paintAll_Cons:
  "paintAll props ((a, b) # segs) c = paintAll props segs (paintPath props a b c)"
  by (simp add: paintAll_def)

lemma paintAll_append:
  "paintAll props (xs @ ys) c = paintAll props ys (paintAll props xs c)"
  by (simp add: paintAll_def)

lemma length_segments: "length (segments ws) = length ws - 1"
  by (simp add: segments_def)

lemma segments_nth:
  "Suc i < length ws \<Longrightarrow> segments ws ! i = (ws ! i, ws ! Suc i)"
  by (simp add: segments_def nth_tl)

lemma drop_segments:
  assumes "Suc i < length ws"
  shows "drop i (segments ws) = (ws ! i, ws ! Suc i) # drop (Suc i) (segments ws)"
proof -
  have "i < length (segments ws)"
    using assms by (simp add: length_segments)
  then have "drop i (segments ws) = segments ws ! i # drop (Suc i) (segments ws)"
    by (simp only: Cons_nth_drop_Suc)
  then show ?thesis
    using assms by (simp only: segments_nth)
qed

lemma drop_segments_end: "length ws \<le> Suc i \<Longrightarrow> drop i (segments ws) = []"
  by (simp add: length_segments)

lemma addPath_at_index:
  "Suc i < length ws \<Longrightarrow>
   addPath props (at_index ws i) (at_index ws (Suc i)) c =
     Inr (paintPath props (ws ! i) (ws ! Suc i) c)"
  by (simp add: addPath_def at_index_def)

lemma drawAll_paintAll:
  "1 \<le> i \<Longrightarrow> drawAll props ws i c = Inr (paintAll props (drop (i - 1) (segments ws)) c)"
proof (induction props ws i c rule: drawAll.induct)
  case (1 props ws i c)
  obtain j where j: "i = Suc j"
    using "1.prems" by (cases i) auto
  show ?case
  proof (cases "i < length ws")
    case True
    then have lt: "Suc j < length ws"
      using j by simp
    have "drawAll props ws i c = drawAll props ws (i + 1) (paintPath props (ws ! j) (ws ! Suc j) c)"
      using True lt j by (subst drawAll.simps) (simp add: addPath_at_index)
    also have "\<dots> = Inr (paintAll props (drop i (segments ws)) (paintPath props (ws ! j) (ws ! Suc j) c))"
      using "1.IH"[OF True, of "paintPath props (ws ! j) (ws ! Suc j) c"] lt j
      by (simp add: addPath_at_index)
    finally show ?thesis
      using j lt by (simp add: drop_segments paintAll_Cons)
  next
    case False
    then show ?thesis
      using j by (subst drawAll.simps) (simp add: drop_segments_end paintAll_Nil)
  qed
qed


lemma catchUp_spec:
  assumes "1 \<le> waypointIndex st"
  shows "catchUp props ws tk k (st, c) =
     Inr (if min k (length ws - waypointIndex st) = 0 then st
          else st\<lparr>waypointIndex := waypointIndex st + min k (length ws - waypointIndex st),
                   lastPointAddedAtTime := Some (now tk)\<rparr>,
          paintAll props
            (take (min k (length ws - waypointIndex st))
               (drop (waypointIndex st - 1) (segments ws))) c)"
  using assms
proof (induction k arbitrary: st c)
  case 0
  then show ?case by (simp add: paintAll_Nil)
next
  case (Suc k)
  obtain j where j: "waypointIndex st = Suc j"
    using Suc.prems by (cases "waypointIndex st") auto
  show ?case
  proof (cases "waypointIndex st < length ws")
    case False
    then have "catchUp props ws tk (Suc k) (st, c) = catchUp props ws tk k (st, c)"
      by (simp add: at_index_def)
    then show ?thesis
      using False Suc.IH[OF Suc.prems, of c] by simp
  next
    case True
    let ?st = "st\<lparr>waypointIndex := waypointIndex st + 1, lastPointAddedAtTime := Some (now tk)\<rparr>"
    let ?c = "paintPath props (ws ! j) (ws ! Suc j) c"
    have lt: "Suc j < length ws"
      using True j by simp
    have "at_index ws (waypointIndex st) = Some (ws ! Suc j)"
      using lt j by (simp add: at_index_def)
    moreover have "addPath props (at_index ws (waypointIndex st - 1)) (Some (ws ! Suc j)) c = Inr ?c"
      using lt j by (simp add: addPath_def at_index_def)
    ultimately have unroll: "catchUp props ws tk (Suc k) (st, c) = catchUp props ws tk k (?st, ?c)"
      by simp
    have m: "min (Suc k) (length ws - waypointIndex st) =
        Suc (min k (length ws - waypointIndex ?st))"
      using True by auto
    have segs: "take (Suc (min k (length ws - waypointIndex ?st))) (drop (waypointIndex st - 1) (segments ws)) =
        (ws ! j, ws ! Suc j) # take (min k (length ws - waypointIndex ?st)) (drop (waypointIndex ?st - 1) (segments ws))"
      using j lt by (simp add: drop_segments)
    have "1 \<le> waypointIndex ?st" by simp
    note IH = Suc.IH[OF this, of ?c]
    show ?thesis
      unfolding unroll IH m segs paintAll_Cons
      by (cases "min k (length ws - waypointIndex ?st) = 0") simp_all
  qed
qed


section \<open>One frame callback\<close>

lemma step_cases:
  assumes "1 \<le> waypointIndex st"
  obtains (fail) "step props ws tk (st, c) = Inl (TypeError, c)"
  | (ok) m st' where
      "step props ws tk (st, c) =
         Inr (st', paintAll props (take m (drop (waypointIndex st - 1) (segments ws))) c)"
      "waypointIndex st' = waypointIndex st + m"
      "m \<le> length ws - waypointIndex st"
proof (cases "lastPointAddedAtTime st")
  case None
  obtain j where j: "waypointIndex st = Suc j"
    using assms by (cases "waypointIndex st") auto
  show ?thesis
  proof (cases "waypointIndex st < length ws")
    case True
    then have lt: "Suc j < length ws"
      using j by simp
    have "step props ws tk (st, c) =
        Inr (st\<lparr>waypointIndex := waypointIndex st + 1, lastPointAddedAtTime := Some (now tk)\<rparr>,
             paintAll props (take 1 (drop (waypointIndex st - 1) (segments ws))) c)"
      using None lt j
      by (simp add: step_def addPath_at_index drop_segments paintAll_Cons paintAll_Nil)
    moreover have "waypointIndex (st\<lparr>waypointIndex := waypointIndex st + 1,
        lastPointAddedAtTime := Some (now tk)\<rparr>) = waypointIndex st + 1"
      by simp
    moreover have "1 \<le> length ws - waypointIndex st"
      using True by simp
    ultimately show ?thesis by (rule ok)
  next
    case False
    then have "at_index ws (waypointIndex st) = None"
      by (simp add: at_index_def)
    then have "step props ws tk (st, c) = Inl (TypeError, c)"
      using None by (simp add: step_def addPath_def split: option.split)
    then show ?thesis by (rule fail)
  qed
next
  case (Some t)
  show ?thesis
  proof (cases "delay props ws")
    case None
    with Some have "step props ws tk (st, c) = Inr (st, c)"
      by (simp add: step_def)
    then show ?thesis
      by (intro ok[of st 0]) (simp_all add: paintAll_Nil)
  next
    case d: (Some d)
    show ?thesis
    proof (cases "d \<le> timestamp tk - t")
      case False
      with Some d have "step props ws tk (st, c) = Inr (st, c)"
        by (simp add: step_def)
      then show ?thesis
        by (intro ok[of st 0]) (simp_all add: paintAll_Nil)
    next
      case True
      define k where "k = nat (Math_ceil ((timestamp tk - t) / d))"
      have "step props ws tk (st, c) = catchUp props ws tk k (st, c)"
        using Some d True by (simp add: step_def k_def)
      also note catchUp_spec[OF assms]
      finally show ?thesis
        by (rule ok) simp_all
    qed
  qed
qed

lemma allSegments_Nil: "allSegments props [] = []"
  by (simp add: allSegments_def)

lemma allSegments_Cons:
  "allSegments props (r # rs) =
     segments (waypointsToRender (pathResolution props) (waypoints r)) @ allSegments props rs"
  by (simp add: allSegments_def routeSegments_def)

lemma advances_refl:
  "(\<And>task c. r = Awaiting task c \<Longrightarrow> 1 \<le> waypointIndex (taskState task)) \<Longrightarrow>
   r \<noteq> ReturnedNull \<Longrightarrow> advances props r r"
  unfolding advances_def
  by (intro exI[of _ 0]) (cases r; simp add: paintAll_Nil)

lemma routeLoop_instant:
  "duration props = 0 \<Longrightarrow> 0 < pathResolution props \<Longrightarrow> pathResolution props \<le> 1 \<Longrightarrow>
   routeLoop props rs c = Completed (paintAll props (allSegments props rs) c)"
proof (induction rs arbitrary: c)
  case Nil
  then show ?case by (simp add: allSegments_Nil paintAll_Nil)
next
  case (Cons r rs)
  then show ?case
    by (simp add: drawAll_paintAll allSegments_Cons paintAll_append)
qed

lemma routeLoop_animated:
  "duration props \<noteq> 0 \<Longrightarrow> 0 < pathResolution props \<Longrightarrow> pathResolution props \<le> 1 \<Longrightarrow>
   routeLoop props (r # rs) c =
     Awaiting (animateRenderWaypoints (waypointsToRender (pathResolution props) (waypoints r)) rs) c"
  by simp

lemma routeLoop_Awaiting_animated:
  "routeLoop props rs c = Awaiting task c' \<Longrightarrow> duration props \<noteq> 0"
proof (induction rs arbitrary: c)
  case Nil
  then show ?case by simp
next
  case (Cons r rs)
  then show ?case
    by (auto simp: Let_def split: if_splits sum.splits prod.splits)
qed

lemma routeLoop_invalid:
  "pathResolution props \<le> 0 \<or> 1 < pathResolution props \<Longrightarrow>
   routeLoop props (r # rs) c = Rejected InvalidPathResolution c"
  by auto

lemma routeLoop_advances:
  "\<exists>k. resultContext (routeLoop props rs c) = Some (paintAll props (take k (allSegments props rs)) c) \<and>
       (case routeLoop props rs c of
          Completed _ \<Rightarrow> length (allSegments props rs) \<le> k
        | Awaiting task _ \<Rightarrow>
            remaining props (routeLoop props rs c) = drop k (allSegments props rs) \<and>
            1 \<le> waypointIndex (taskState task)
        | _ \<Rightarrow> True)"
proof (cases rs)
  case Nil
  then show ?thesis
    by (intro exI[of _ 0]) (simp add: paintAll_Nil allSegments_Nil)
next
  case (Cons r rest)
  consider (invalid) "pathResolution props \<le> 0 \<or> 1 < pathResolution props"
    | (instant) "0 < pathResolution props" "pathResolution props \<le> 1" "duration props = 0"
    | (animated) "0 < pathResolution props" "pathResolution props \<le> 1" "duration props \<noteq> 0"
    by fastforce
  then show ?thesis
  proof cases
    case invalid
    then show ?thesis
      unfolding Cons routeLoop_invalid[OF invalid]
      by (intro exI[of _ 0]) (simp add: paintAll_Nil)
  next
    case instant
    then show ?thesis
      by (intro exI[of _ "length (allSegments props rs)"]) (simp add: routeLoop_instant)
  next
    case animated
    show ?thesis
      unfolding Cons routeLoop_animated[OF animated(3,1,2)]
      by (intro exI[of _ 0])
        (simp add: paintAll_Nil animateRenderWaypoints_def allSegments_Cons)
  qed
qed


lemma length_drop_segments:
  "1 \<le> i \<Longrightarrow> length (drop (i - 1) (segments ws)) = length ws - i"
  by (simp add: length_segments)

lemma frameCallback_advances:
  assumes "1 \<le> waypointIndex (taskState task)"
  shows "advances props (Awaiting task c) (frameCallback props task tk c)"
  using assms
proof (cases rule: step_cases[of "taskState task" props "taskWaypoints task" tk c])
  case fail
  then have "frameCallback props task tk c = Stalled TypeError c"
    by (simp add: frameCallback_def)
  then show ?thesis
    unfolding advances_def by (intro exI[of _ 0]) (simp add: paintAll_Nil)
next
  case (ok m st')
  let ?ws = "taskWaypoints task"
  let ?D = "drop (waypointIndex (taskState task) - 1) (segments ?ws)"
  let ?R = "allSegments props (taskRest task)"
  let ?c = "paintAll props (take m ?D) c"
  have lenD: "length ?D = length ?ws - waypointIndex (taskState task)"
    using assms by (rule length_drop_segments)
  have m: "m \<le> length ?D"
    using ok(3) lenD by simp
  show ?thesis
  proof (cases "waypointIndex st' < length ?ws")
    case True
    then have fc: "frameCallback props task tk c = Awaiting (task\<lparr>taskState := st'\<rparr>) ?c"
      using ok(1) by (simp add: frameCallback_def)
    have "drop (waypointIndex st' - 1) (segments ?ws) = drop m ?D"
      using ok(2) assms by (simp add: add.commute)
    then show ?thesis
      unfolding advances_def fc using m ok(2) assms by (intro exI[of _ m]) simp
  next
    case False
    then have fc: "frameCallback props task tk c = routeLoop props (taskRest task) ?c"
      using ok(1) by (simp add: frameCallback_def)
    have full: "m = length ?D"
      using False ok(2) m lenD by simp
    obtain k where k:
      "resultContext (routeLoop props (taskRest task) ?c) = Some (paintAll props (take k ?R) ?c)"
      "case routeLoop props (taskRest task) ?c of
          Completed _ \<Rightarrow> length ?R \<le> k
        | Awaiting task' _ \<Rightarrow>
            remaining props (routeLoop props (taskRest task) ?c) = drop k ?R \<and>
            1 \<le> waypointIndex (taskState task')
        | _ \<Rightarrow> True"
      using routeLoop_advances[of props "taskRest task" ?c] by blast
    have "paintAll props (take k ?R) ?c = paintAll props (take (m + k) (?D @ ?R)) c"
      using full by (simp add: paintAll_append)
    with k(1) have ctx: "resultContext (routeLoop props (taskRest task) ?c) =
        Some (paintAll props (take (m + k) (?D @ ?R)) c)"
      by simp
    show ?thesis
      unfolding advances_def fc
    proof (intro exI[of _ "m + k"] conjI)
      show "resultContext (routeLoop props (taskRest task) ?c) =
          map_option (paintAll props (take (m + k) (remaining props (Awaiting task c))))
            (resultContext (Awaiting task c))"
        using ctx by simp
      show "case routeLoop props (taskRest task) ?c of
          Completed _ \<Rightarrow> length (remaining props (Awaiting task c)) \<le> m + k
        | Awaiting task' _ \<Rightarrow>
            remaining props (routeLoop props (taskRest task) ?c) =
              drop (m + k) (remaining props (Awaiting task c)) \<and>
            1 \<le> waypointIndex (taskState task')
        | _ \<Rightarrow> True"
        using k(2) full by (cases "routeLoop props (taskRest task) ?c") simp_all
    qed
  qed
qed

lemma advances_trans:
  assumes "advances props r (Awaiting task c)" and "advances props (Awaiting task c) r''"
  shows "advances props r r''"
proof -
  obtain k where k:
    "Some c = map_option (paintAll props (take k (remaining props r))) (resultContext r)"
    "remaining props (Awaiting task c) = drop k (remaining props r)"
    using assms(1) unfolding advances_def by auto
  obtain k' where k':
    "resultContext r'' = Some (paintAll props (take k' (remaining props (Awaiting task c))) c)"
    "case r'' of
       Completed _ \<Rightarrow> length (remaining props (Awaiting task c)) \<le> k'
     | Awaiting task' _ \<Rightarrow>
         remaining props r'' = drop k' (remaining props (Awaiting task c)) \<and>
         1 \<le> waypointIndex (taskState task')
     | _ \<Rightarrow> True"
    using assms(2) unfolding advances_def by auto
  obtain c0 where c0: "resultContext r = Some c0"
    and c: "c = paintAll props (take k (remaining props r)) c0"
    using k(1) by (cases "resultContext r") auto
  have ctx'': "resultContext r'' = Some (paintAll props (take k' (drop k (remaining props r))) c)"
    using k'(1) unfolding k(2) .
  have rest: "case r'' of
       Completed _ \<Rightarrow> length (drop k (remaining props r)) \<le> k'
     | Awaiting task' _ \<Rightarrow>
         remaining props r'' = drop k' (drop k (remaining props r)) \<and>
         1 \<le> waypointIndex (taskState task')
     | _ \<Rightarrow> True"
    using k'(2) unfolding k(2) .
  have "paintAll props (take k' (drop k (remaining props r))) c =
      paintAll props (take (k + k') (remaining props r)) c0"
    unfolding c by (simp add: take_add paintAll_append)
  then have "resultContext r'' =
      map_option (paintAll props (take (k + k') (remaining props r))) (resultContext r)"
    using ctx'' c0 by simp
  moreover have "case r'' of
       Completed _ \<Rightarrow> length (remaining props r) \<le> k + k'
     | Awaiting task' _ \<Rightarrow>
         remaining props r'' = drop (k + k') (remaining props r) \<and>
         1 \<le> waypointIndex (taskState task')
     | _ \<Rightarrow> True"
    using rest by (cases r'') (simp_all add: add.commute)
  ultimately show ?thesis
    unfolding advances_def by blast
qed

lemma runFrames_advances:
  assumes "advances props r0 r"
  shows "advances props r0 (runFrames props tks r)"
  using assms
proof (induction tks arbitrary: r)
  case Nil
  then show ?case by simp
next
  case (Cons tk tks)
  show ?case
  proof (cases r)
    case (Awaiting task c)
    have "1 \<le> waypointIndex (taskState task)"
      using Cons.prems Awaiting unfolding advances_def by auto
    then have "advances props (Awaiting task c) (frameCallback props task tk c)"
      by (rule frameCallback_advances)
    with Cons.prems Awaiting have "advances props r0 (frameCallback props task tk c)"
      by (auto intro: advances_trans)
    then show ?thesis
      unfolding Awaiting by (simp add: Cons.IH)
  qed (use Cons.prems in simp_all)
qed


lemma canvas_paintPath:
  "canvasWidth (paintPath props a b c) = canvasWidth c"
  "canvasHeight (paintPath props a b c) = canvasHeight c"
  by (simp_all add: paintPath_def stroke_def lineTo_def moveTo_def beginPath_def Let_def)

lemma calls_paintPath:
  "calls (paintPath props a b c) = calls c @ [strokeOf props c (a, b)]"
  by (simp add: paintPath_def stroke_def lineTo_def moveTo_def beginPath_def strokeOf_def
      coordinatesToBoundedCanvasPoint_def Let_def)

lemma strokeOf_cong:
  "canvasWidth c' = canvasWidth c \<Longrightarrow> canvasHeight c' = canvasHeight c \<Longrightarrow>
   strokeOf props c' = strokeOf props c"
  by (rule ext) (simp add: strokeOf_def coordinatesToBoundedCanvasPoint_def)

lemma calls_paintAll:
  "calls (paintAll props segs c) = calls c @ map (strokeOf props c) segs"
proof (induction segs arbitrary: c)
  case Nil
  then show ?case by (simp add: paintAll_Nil)
next
  case (Cons seg segs)
  obtain a b where seg: "seg = (a, b)"
    by (cases seg)
  have "strokeOf props (paintPath props a b c) = strokeOf props c"
    by (rule strokeOf_cong) (simp_all add: canvas_paintPath)
  then show ?case
    unfolding seg paintAll_Cons Cons.IH by (simp add: calls_paintPath)
qed

lemma canvas_paintBackground:
  "canvasWidth (paintBackground props c) = canvasWidth c"
  "canvasHeight (paintBackground props c) = canvasHeight c"
  by (simp_all add: paintBackground_def clearRect_def fillRect_def Let_def split: option.split)

lemma renderRoutes_advances:
  "advances props (Awaiting (animateRenderWaypoints [] rs) (paintBackground props c))
     (runFrames props tks (renderRoutes props rs (Some c)))"
proof -
  let ?r0 = "Awaiting (animateRenderWaypoints [] rs) (paintBackground props c)"
  have rem: "remaining props ?r0 = allSegments props rs"
    by (simp add: animateRenderWaypoints_def segments_def)
  have "advances props ?r0 (routeLoop props rs (paintBackground props c))"
    unfolding advances_def rem
    using routeLoop_advances[of props rs "paintBackground props c"] by simp
  then show ?thesis
    unfolding renderRoutes_def by (simp add: runFrames_advances)
qed

lemma render_prefix:
  "\<exists>k. resultContext (runFrames props tks (renderRoutes props rs (Some c))) =
         Some (paintAll props (take k (allSegments props rs)) (paintBackground props c))"
  using renderRoutes_advances[of props rs c tks]
  unfolding advances_def by (auto simp: animateRenderWaypoints_def segments_def)

lemma render_completed:
  assumes "runFrames props tks (renderRoutes props rs (Some c)) = Completed c'"
  shows "c' = paintAll props (allSegments props rs) (paintBackground props c)"
  using renderRoutes_advances[of props rs c tks]
  unfolding advances_def assms by (auto simp: animateRenderWaypoints_def segments_def)

lemma runFrames_final:
  "runFrames props tks ReturnedNull = ReturnedNull"
  "runFrames props tks (Completed c) = Completed c"
  "runFrames props tks (Rejected e c) = Rejected e c"
  "runFrames props tks (Stalled e c) = Stalled e c"
  by (cases tks; simp)+

lemma paintPath_duration: "paintPath (props\<lparr>duration := d\<rparr>) = paintPath props"
  by (intro ext) (simp add: paintPath_def)

lemma paintAll_duration: "paintAll (props\<lparr>duration := d\<rparr>) = paintAll props"
  by (intro ext) (simp add: paintAll_def paintPath_duration)

lemma routeSegments_duration: "routeSegments (props\<lparr>duration := d\<rparr>) = routeSegments props"
  by (intro ext) (simp add: routeSegments_def)

lemma allSegments_duration: "allSegments (props\<lparr>duration := d\<rparr>) = allSegments props"
  by (intro ext) (simp add: allSegments_def routeSegments_duration)

lemma paintBackground_duration: "paintBackground (props\<lparr>duration := d\<rparr>) = paintBackground props"
  by (intro ext) (simp add: paintBackground_def)

lemma render_instant:
  assumes "0 < pathResolution props" and "pathResolution props \<le> 1"
  shows "renderRoutes (props\<lparr>duration := 0\<rparr>) rs (Some c) =
     Completed (paintAll props (allSegments props rs) (paintBackground props c))"
proof -
  have "routeLoop (props\<lparr>duration := 0\<rparr>) rs (paintBackground (props\<lparr>duration := 0\<rparr>) c) =
      Completed (paintAll (props\<lparr>duration := 0\<rparr>) (allSegments (props\<lparr>duration := 0\<rparr>) rs)
        (paintBackground (props\<lparr>duration := 0\<rparr>) c))"
    using assms by (intro routeLoop_instant) simp_all
  then show ?thesis
    unfolding renderRoutes_def paintAll_duration allSegments_duration paintBackground_duration
    by simp
qed

lemma render_invalid:
  assumes "pathResolution props \<le> 0 \<or> 1 < pathResolution props" and "rs \<noteq> []"
  shows "runFrames props tks (renderRoutes props rs (Some c)) =
     Rejected InvalidPathResolution (paintBackground props c)"
proof -
  obtain r rest where rs: "rs = r # rest"
    using assms(2) by (cases rs) auto
  have "renderRoutes props rs (Some c) = Rejected InvalidPathResolution (paintBackground props c)"
    unfolding rs renderRoutes_def using routeLoop_invalid[OF assms(1)] by simp
  then show ?thesis
    by (simp add: runFrames_final)
qed

section \<open>Evaluating the examples\<close>

lemma catchUp_numeral:
  "catchUp props ws tk (numeral k) (st, context) =
     (case at_index ws (waypointIndex st) of
        None \<Rightarrow> catchUp props ws tk (pred_numeral k) (st, context)
      | Some wp \<Rightarrow>
          (case addPath props (at_index ws (waypointIndex st - 1)) (Some wp) context of
             Inl e \<Rightarrow> Inl (e, context)
           | Inr context' \<Rightarrow>
               catchUp props ws tk (pred_numeral k)
                 (st\<lparr>waypointIndex := waypointIndex st + 1,
                     lastPointAddedAtTime := Some (now tk)\<rparr>, context')))"
  by (simp add: numeral_eq_Suc)


lemmas eval_defs =
  renderRoutes_def paintBackground_def clearRect_def fillRect_def frameCallback_def step_def
  delay_def js_div_def Math_ceil_def Math_round_def addPath_def at_index_def paintPath_def
  stroke_def lineTo_def moveTo_def beginPath_def coordinatesToBoundedCanvasPoint_def
  normalizeCoordinates_def normalizeLat_def normalizeLon_def animateRenderWaypoints_def
  waypointsToRender_def keptEntries_def entries_def keepIndex_def renderEveryNthPoint_def
  sampleProps_def routeA_def routeB_def pointRoute_def longRoute_def sampleTicks_def
  freshContext_def squareBounds_def paintAll_def Let_def upt_rec catchUp_numeral

section \<open>Instantaneous and animated rendering\<close>

text \<open>
  An animation does complete when the host keeps delivering ticks: with a positive
  duration, a valid resolution and routes of at least two waypoints, ticks that are at
  least the duration apart, as many of them as there are segments, run the render call to
  its end.
\<close>

lemma length_decimated_ge2:
  assumes "2 \<le> length xs" and "0 < r" and "r \<le> 1"
  shows "2 \<le> length (waypointsToRender r xs)"
proof -
  have "1 \<le> renderEveryNthPoint r"
    using assms(2,3) by (rule renderEveryNthPoint_pos)
  then show ?thesis
    using assms(1) by (auto simp: length_waypointsToRender length_kept)
qed

lemma step_progress:
  assumes dur: "0 < duration props"
    and idx: "1 \<le> waypointIndex st" "waypointIndex st < length ws"
    and last: "\<And>t. lastPointAddedAtTime st = Some t \<Longrightarrow> t \<le> prev"
    and due: "prev + duration props \<le> timestamp tk"
  obtains m st' where "1 \<le> m" and "m \<le> length ws - waypointIndex st"
    and "step props ws tk (st, c) =
           Inr (st', paintAll props (take m (drop (waypointIndex st - 1) (segments ws))) c)"
    and "waypointIndex st' = waypointIndex st + m"
    and "lastPointAddedAtTime st' = Some (now tk)"
proof (cases "lastPointAddedAtTime st")
  case None
  obtain j where j: "waypointIndex st = Suc j"
    using idx(1) by (cases "waypointIndex st") auto
  have lt: "Suc j < length ws"
    using idx(2) j by simp
  let ?st = "st\<lparr>waypointIndex := waypointIndex st + 1, lastPointAddedAtTime := Some (now tk)\<rparr>"
  have "step props ws tk (st, c) =
      Inr (?st, paintAll props (take 1 (drop (waypointIndex st - 1) (segments ws))) c)"
    using None lt j
    by (simp add: step_def addPath_at_index drop_segments paintAll_Cons paintAll_Nil)
  moreover have "1 \<le> length ws - waypointIndex st"
    using idx(2) by simp
  ultimately show ?thesis
    by (intro that[of 1 ?st]) simp_all
next
  case (Some t)
  define d where "d = duration props / real (length ws) * (8 / 10)"
  have "1 \<le> length ws"
    using idx by linarith
  then have "real 1 \<le> real (length ws)"
    by (rule of_nat_mono)
  then have n: "1 \<le> real (length ws)"
    by (simp only: of_nat_1)
  then have npos: "0 < real (length ws)"
    by linarith
  have "duration props * 1 \<le> duration props * real (length ws)"
    using n by (rule mult_left_mono) (use dur in simp)
  then have q_le: "duration props / real (length ws) \<le> duration props"
    using npos by (simp only: pos_divide_le_eq mult_1_right)
  have q_pos: "0 < duration props / real (length ws)"
    using dur npos by (rule divide_pos_pos)
  have scale: "q * (8 / 10) \<le> D \<and> 0 < q * (8 / 10)" if "q \<le> D" and "0 < q" for q D :: real
    using that by simp
  have d_le: "d \<le> duration props" and d_pos: "0 < d"
    unfolding d_def using scale[OF q_le q_pos] by blast+
  have "real (length ws) \<noteq> 0"
    using npos by linarith
  then have delay: "delay props ws = Some d"
    by (simp add: delay_def js_div_def d_def)
  have "t \<le> prev"
    using Some by (rule last)
  then have elapsed: "d \<le> timestamp tk - t"
    using due d_le by simp
  then have "1 \<le> (timestamp tk - t) / d"
    using d_pos by simp
  then have k: "1 \<le> nat \<lceil>(timestamp tk - t) / d\<rceil>"
    by linarith
  define m where "m = min (nat \<lceil>(timestamp tk - t) / d\<rceil>) (length ws - waypointIndex st)"
  have "1 \<le> length ws - waypointIndex st"
    using idx(2) by simp
  with k have m1: "1 \<le> m"
    unfolding m_def by (rule min.boundedI)
  let ?st = "st\<lparr>waypointIndex := waypointIndex st + m, lastPointAddedAtTime := Some (now tk)\<rparr>"
  have "step props ws tk (st, c) = catchUp props ws tk (nat \<lceil>(timestamp tk - t) / d\<rceil>) (st, c)"
    using Some delay elapsed by (simp add: step_def Math_ceil_def)
  also have "\<dots> = Inr (if m = 0 then st else ?st,
      paintAll props (take m (drop (waypointIndex st - 1) (segments ws))) c)"
    unfolding m_def by (rule catchUp_spec[OF idx(1)])
  finally have "step props ws tk (st, c) =
      Inr (?st, paintAll props (take m (drop (waypointIndex st - 1) (segments ws))) c)"
    using m1 by simp
  moreover have "m \<le> length ws - waypointIndex st"
    unfolding m_def by simp
  ultimately show ?thesis
    using m1 by (intro that[of m ?st]) simp_all
qed

lemma running_animation_completes:
  assumes "0 < duration props" and "0 < pathResolution props" and "pathResolution props \<le> 1"
  shows "\<forall>r \<in> set (taskRest task). 2 \<le> length (waypoints r) \<Longrightarrow>
     1 \<le> waypointIndex (taskState task) \<Longrightarrow>
     waypointIndex (taskState task) < length (taskWaypoints task) \<Longrightarrow>
     (\<And>t. lastPointAddedAtTime (taskState task) = Some t \<Longrightarrow> t \<le> prev) \<Longrightarrow>
     spaced (duration props) prev tks \<Longrightarrow>
     length (remaining props (Awaiting task c)) \<le> length tks \<Longrightarrow>
     \<exists>c'. runFrames props tks (Awaiting task c) = Completed c'"
proof (induction tks arbitrary: task c prev)
  case Nil
  have "0 < length (drop (waypointIndex (taskState task) - 1) (segments (taskWaypoints task)))"
    using Nil.prems(2,3) by (simp add: length_segments)
  then show ?case
    using Nil.prems(6) by simp
next
  case (Cons tk tks)
  let ?ws = "taskWaypoints task" and ?st = "taskState task"
  let ?D = "drop (waypointIndex ?st - 1) (segments ?ws)"
  let ?R = "allSegments props (taskRest task)"
  have due: "prev + duration props \<le> timestamp tk" and later: "spaced (duration props) (now tk) tks"
    using Cons.prems(5) by simp_all
  have lenD: "length ?D = length ?ws - waypointIndex ?st"
    using Cons.prems(2) by (rule length_drop_segments)
  have budget: "length ?D + length ?R \<le> Suc (length tks)"
    using Cons.prems(6) by simp
  obtain m st' where m: "1 \<le> m" "m \<le> length ?ws - waypointIndex ?st"
    and step: "step props ?ws tk (?st, c) = Inr (st', paintAll props (take m ?D) c)"
    and idx': "waypointIndex st' = waypointIndex ?st + m"
    and last': "lastPointAddedAtTime st' = Some (now tk)"
    using step_progress[OF assms(1) Cons.prems(2,3) Cons.prems(4) due, of c] by blast
  let ?c = "paintAll props (take m ?D) c"
  show ?case
  proof (cases "waypointIndex st' < length ?ws")
    case True
    let ?task = "task\<lparr>taskState := st'\<rparr>"
    have fc: "frameCallback props task tk c = Awaiting ?task ?c"
      using step True by (simp add: frameCallback_def)
    have "length (remaining props (Awaiting ?task ?c)) \<le> length tks"
      using budget m idx' lenD Cons.prems(2) by (simp add: length_segments)
    moreover have "\<And>t. lastPointAddedAtTime (taskState ?task) = Some t \<Longrightarrow> t \<le> now tk"
      using last' by simp
    ultimately have "\<exists>c'. runFrames props tks (Awaiting ?task ?c) = Completed c'"
      using Cons.prems(1) True idx' m(1) later
      by (intro Cons.IH[where prev = "now tk"]) simp_all
    then show ?thesis
      by (simp only: runFrames.simps fc)
  next
    case False
    then have fc: "frameCallback props task tk c = routeLoop props (taskRest task) ?c"
      using step by (simp add: frameCallback_def)
    show ?thesis
    proof (cases "taskRest task")
      case Nil
      then show ?thesis
        by (simp add: fc runFrames_final)
    next
      case (Cons r rest)
      let ?task = "animateRenderWaypoints (waypointsToRender (pathResolution props) (waypoints r)) rest"
      have loop: "routeLoop props (taskRest task) ?c = Awaiting ?task ?c"
        unfolding Cons using assms by (intro routeLoop_animated) simp_all
      have "2 \<le> length (waypoints r)"
        using Cons.prems(1) Cons by simp
      then have two: "2 \<le> length (waypointsToRender (pathResolution props) (waypoints r))"
        using assms(2,3) by (rule length_decimated_ge2)
      have "remaining props (Awaiting ?task ?c) = ?R"
        by (simp add: animateRenderWaypoints_def Cons allSegments_Cons)
      moreover have "1 \<le> length ?D"
        using lenD Cons.prems(3) by simp
      ultimately have "length (remaining props (Awaiting ?task ?c)) \<le> length tks"
        using budget by simp
      moreover have "\<forall>r \<in> set (taskRest ?task). 2 \<le> length (waypoints r)"
        using Cons.prems(1) Cons by (simp add: animateRenderWaypoints_def)
      ultimately have "\<exists>c'. runFrames props tks (Awaiting ?task ?c) = Completed c'"
        using two later
        by (intro Cons.IH[where prev = "now tk"]) (simp_all add: animateRenderWaypoints_def)
      then show ?thesis
        by (simp only: runFrames.simps fc loop)
    qed
  qed
qed

lemma animation_completes:
  assumes "0 < duration props" and "0 < pathResolution props" and "pathResolution props \<le> 1"
    and "\<forall>r \<in> set rs. 2 \<le> length (waypoints r)"
    and "spaced (duration props) prev tks"
    and "length (allSegments props rs) \<le> length tks"
  shows "\<exists>c'. runFrames props tks (renderRoutes props rs (Some c)) = Completed c'"
proof (cases rs)
  case Nil
  then show ?thesis
    by (simp add: renderRoutes_def runFrames_final)
next
  case (Cons r rest)
  let ?task = "animateRenderWaypoints (waypointsToRender (pathResolution props) (waypoints r)) rest"
  let ?c = "paintBackground props c"
  have start: "renderRoutes props rs (Some c) = Awaiting ?task ?c"
    unfolding renderRoutes_def Cons using assms(1-3) by (simp only: option.case) simp
  have "2 \<le> length (waypoints r)"
    using assms(4) Cons by simp
  then have two: "2 \<le> length (waypointsToRender (pathResolution props) (waypoints r))"
    using assms(2,3) by (rule length_decimated_ge2)
  have "remaining props (Awaiting ?task ?c) = allSegments props rs"
    by (simp add: animateRenderWaypoints_def Cons allSegments_Cons)
  then have "length (remaining props (Awaiting ?task ?c)) \<le> length tks"
    using assms(6) by simp
  moreover have "\<forall>r \<in> set (taskRest ?task). 2 \<le> length (waypoints r)"
    using assms(4) Cons by (simp add: animateRenderWaypoints_def)
  ultimately have "\<exists>c'. runFrames props tks (Awaiting ?task ?c) = Completed c'"
    using two assms(5)
    by (intro running_animation_completes[OF assms(1-3), where prev = prev])
      (simp_all add: animateRenderWaypoints_def)
  then show ?thesis
    by (simp only: start)
qed

text \<open>
  C2. When the animated rendering of a list of routes (in particular of one route) runs to
  completion, whatever the ticks of the host were, it ends with the very context that
  rendering with a duration of zero ends with: the calls on the surface are the
  background calls followed by one stroke for each segment of each decimated route, in
  order. An animation that does not complete (the ticks ran out, or a frame callback
  raised an exception, as it does for a route of fewer than two waypoints) is not
  covered; \<open>animation_completes\<close> above shows when completion is reached.
\<close>

theorem instant_animated_equivalence:
  assumes "runFrames props tks (renderRoutes props rs (Some c)) = Completed c'"
  shows "renderRoutes (props\<lparr>duration := 0\<rparr>) rs (Some c) = Completed c' \<and>
         calls c' =
           calls (paintBackground props c) @ map (strokeOf props c) (allSegments props rs)"
proof -
  have c': "c' = paintAll props (allSegments props rs) (paintBackground props c)"
    using assms by (rule render_completed)
  have "strokeOf props (paintBackground props c) = strokeOf props c"
    by (rule strokeOf_cong) (simp_all add: canvas_paintBackground)
  then have calls: "calls c' =
      calls (paintBackground props c) @ map (strokeOf props c) (allSegments props rs)"
    unfolding c' calls_paintAll by simp
  show ?thesis
  proof (cases "0 < pathResolution props \<and> pathResolution props \<le> 1")
    case True
    then show ?thesis
      using calls c' by (simp add: render_instant)
  next
    case False
    then have invalid: "pathResolution props \<le> 0 \<or> 1 < pathResolution props"
      by auto
    have "rs = []"
    proof (rule ccontr)
      assume "rs \<noteq> []"
      from render_invalid[OF invalid this, of tks c] assms show False by simp
    qed
    then show ?thesis
      using calls assms by (simp add: renderRoutes_def paintBackground_duration runFrames_final)
  qed
qed

theorem instant_animated_equivalence_witness:
  "runFrames sampleProps sampleTicks
     (renderRoutes sampleProps [routeA] (Some (freshContext 100 100))) =
   renderRoutes (sampleProps\<lparr>duration := 0\<rparr>) [routeA] (Some (freshContext 100 100)) \<and>
   map_option calls (resultContext
     (renderRoutes (sampleProps\<lparr>duration := 0\<rparr>) [routeA] (Some (freshContext 100 100)))) =
   Some [ClearRect 0 0 100 100,
     Stroke [MoveTo \<lparr>px = Some 50, py = Some 50\<rparr>, LineTo \<lparr>px = Some 75, py = Some 25\<rparr>]
       1 ''round'' ''round'' ''rgb(0,0,0,0.25)'',
     Stroke [MoveTo \<lparr>px = Some 75, py = Some 25\<rparr>, LineTo \<lparr>px = Some 0, py = Some 0\<rparr>]
       1 ''round'' ''round'' ''rgb(0,0,0,0.25)'']"
proof -
  let ?c = "\<lparr>canvasWidth = 100, canvasHeight = 100, lineWidth = 1,
     lineCap = ''round'', lineJoin = ''round'',
     strokeStyle = ''rgb(0,0,0,0.25)'', fillStyle = ''#000000'',
     path = [MoveTo \<lparr>px = Some 75, py = Some 25\<rparr>, LineTo \<lparr>px = Some 0, py = Some 0\<rparr>],
     calls = [ClearRect 0 0 100 100,
        Stroke [MoveTo \<lparr>px = Some 50, py = Some 50\<rparr>, LineTo \<lparr>px = Some 75, py = Some 25\<rparr>]
          1 ''round'' ''round'' ''rgb(0,0,0,0.25)'',
        Stroke [MoveTo \<lparr>px = Some 75, py = Some 25\<rparr>, LineTo \<lparr>px = Some 0, py = Some 0\<rparr>]
          1 ''round'' ''round'' ''rgb(0,0,0,0.25)'']\<rparr>"
  have run: "runFrames sampleProps sampleTicks
      (renderRoutes sampleProps [routeA] (Some (freshContext 100 100))) = Completed ?c"
    by (simp add: eval_defs)
  from instant_animated_equivalence[OF run] show ?thesis
    using run by simp
qed

section \<open>Order of drawing\<close>

text \<open>
  C6. At every moment of an animated (or instantaneous) render call, that is after any
  list of ticks, the strokes on the surface are a prefix of the list that holds the
  strokes of the first route in waypoint order, then those of the second route in
  waypoint order, and so on in the order of the caller: no segment of a later route is
  drawn before all segments of the routes before it, and the segments of one route are
  drawn in waypoint order however many of them a tick draws.
\<close>

theorem sequential_track_ordering:
  "\<exists>k. map_option calls
          (resultContext (runFrames props tks (renderRoutes props rs (Some c)))) =
        Some (calls (paintBackground props c) @
              take k (concat (map (\<lambda>r. map (strokeOf props c) (routeSegments props r)) rs)))"
proof -
  obtain k where "resultContext (runFrames props tks (renderRoutes props rs (Some c))) =
      Some (paintAll props (take k (allSegments props rs)) (paintBackground props c))"
    using render_prefix by blast
  moreover have "strokeOf props (paintBackground props c) = strokeOf props c"
    by (rule strokeOf_cong) (simp_all add: canvas_paintBackground)
  ultimately have "map_option calls
      (resultContext (runFrames props tks (renderRoutes props rs (Some c)))) =
      Some (calls (paintBackground props c) @
            take k (map (strokeOf props c) (allSegments props rs)))"
    by (simp add: calls_paintAll take_map)
  then show ?thesis
    by (auto simp: allSegments_def map_concat comp_def)
qed


section \<open>Validation of the resolution\<close>

lemma routeLoop_not_rejected:
  assumes "0 < pathResolution props" and "pathResolution props \<le> 1"
  shows "routeLoop props rs c \<noteq> Rejected e c'"
proof (cases "duration props = 0")
  case True
  then show ?thesis
    using assms by (simp add: routeLoop_instant)
next
  case False
  then show ?thesis
    using assms by (cases rs) simp_all
qed

lemma frameCallback_not_rejected:
  assumes "0 < pathResolution props" and "pathResolution props \<le> 1"
  shows "frameCallback props task tk c \<noteq> Rejected e c'"
  using routeLoop_not_rejected[OF assms]
  by (simp add: frameCallback_def split: sum.split prod.split)

lemma runFrames_not_rejected:
  assumes "0 < pathResolution props" and "pathResolution props \<le> 1"
    and "r \<noteq> Rejected e c'"
  shows "runFrames props tks r \<noteq> Rejected e c'"
  using assms(3)
proof (induction tks arbitrary: r)
  case Nil
  then show ?case by simp
next
  case (Cons tk tks)
  show ?case
  proof (cases r)
    case (Awaiting task c)
    then show ?thesis
      using Cons.IH[OF frameCallback_not_rejected[OF assms(1,2)]] by simp
  qed (use Cons.prems in simp_all)
qed

lemma calls_paintBackground:
  "calls (paintBackground props c) =
     calls c @ ClearRect 0 0 (real (canvasWidth c)) (real (canvasHeight c)) #
       (case bgColor props of
          None \<Rightarrow> []
        | Some colour \<Rightarrow>
            if colour = [] then []
            else [FillRect colour 0 0 (real (canvasWidth c)) (real (canvasHeight c))])"
  by (simp add: paintBackground_def clearRect_def fillRect_def Let_def split: option.split)

text \<open>
  C4, as amended. A render call on an available surface with at least one route and a
  resolution outside \<open>(0, 1]\<close> is rejected with the error of the invalid resolution at the
  first route: the surface then holds what it held before followed by the clearing of the
  canvas and, when a background colour is set, its fill, and no stroke. A call without
  routes completes and a call without a surface returns \<open>null\<close>, whatever the resolution.
  With a resolution in \<open>(0, 1]\<close> the call is never rejected, and with a duration of zero it
  completes with all segments drawn.
\<close>

theorem invalid_resolution_rejected:
  "(rs \<noteq> [] \<and> (pathResolution props \<le> 0 \<or> 1 < pathResolution props) \<longrightarrow>
      runFrames props tks (renderRoutes props rs (Some c)) =
        Rejected InvalidPathResolution (paintBackground props c)) \<and>
   calls (paintBackground props c) =
     calls c @ ClearRect 0 0 (real (canvasWidth c)) (real (canvasHeight c)) #
       (case bgColor props of
          None \<Rightarrow> []
        | Some colour \<Rightarrow>
            if colour = [] then []
            else [FillRect colour 0 0 (real (canvasWidth c)) (real (canvasHeight c))]) \<and>
   runFrames props tks (renderRoutes props [] (Some c)) = Completed (paintBackground props c) \<and>
   runFrames props tks (renderRoutes props rs None) = ReturnedNull \<and>
   (0 < pathResolution props \<and> pathResolution props \<le> 1 \<longrightarrow>
      runFrames props tks (renderRoutes props rs (Some c)) \<noteq> Rejected e c' \<and>
      (duration props = 0 \<longrightarrow>
         renderRoutes props rs (Some c) =
           Completed (paintAll props (allSegments props rs) (paintBackground props c))))"
proof (intro conjI impI)
  assume "rs \<noteq> [] \<and> (pathResolution props \<le> 0 \<or> 1 < pathResolution props)"
  then show "runFrames props tks (renderRoutes props rs (Some c)) =
      Rejected InvalidPathResolution (paintBackground props c)"
    by (simp add: render_invalid)
next
  show "calls (paintBackground props c) =
     calls c @ ClearRect 0 0 (real (canvasWidth c)) (real (canvasHeight c)) #
       (case bgColor props of
          None \<Rightarrow> []
        | Some colour \<Rightarrow>
            if colour = [] then []
            else [FillRect colour 0 0 (real (canvasWidth c)) (real (canvasHeight c))])"
    by (rule calls_paintBackground)
next
  show "runFrames props tks (renderRoutes props [] (Some c)) = Completed (paintBackground props c)"
    by (simp add: renderRoutes_def runFrames_final)
next
  show "runFrames props tks (renderRoutes props rs None) = ReturnedNull"
    by (simp add: renderRoutes_def runFrames_final)
next
  assume valid: "0 < pathResolution props \<and> pathResolution props \<le> 1"
  then have "renderRoutes props rs (Some c) \<noteq> Rejected e c'"
    by (simp add: renderRoutes_def routeLoop_not_rejected)
  with valid show "runFrames props tks (renderRoutes props rs (Some c)) \<noteq> Rejected e c'"
    by (intro runFrames_not_rejected) simp_all
next
  assume "0 < pathResolution props \<and> pathResolution props \<le> 1" and "duration props = 0"
  then show "renderRoutes props rs (Some c) =
      Completed (paintAll props (allSegments props rs) (paintBackground props c))"
    by (simp add: renderRoutes_def routeLoop_instant)
qed

theorem invalid_resolution_rejected_witness:
  "runFrames (sampleProps\<lparr>pathResolution := 0\<rparr>) sampleTicks
     (renderRoutes (sampleProps\<lparr>pathResolution := 0\<rparr>) [routeA, routeB]
        (Some (freshContext 100 100))) =
     Rejected InvalidPathResolution (paintBackground sampleProps (freshContext 100 100)) \<and>
   runFrames (sampleProps\<lparr>pathResolution := 3 / 2\<rparr>) sampleTicks
     (renderRoutes (sampleProps\<lparr>pathResolution := 3 / 2\<rparr>) [routeA, routeB]
        (Some (freshContext 100 100))) =
     Rejected InvalidPathResolution (paintBackground sampleProps (freshContext 100 100)) \<and>
   calls (paintBackground sampleProps (freshContext 100 100)) = [ClearRect 0 0 100 100] \<and>
   map_option calls (resultContext
     (renderRoutes (sampleProps\<lparr>duration := 0\<rparr>) [routeA, routeB]
        (Some (freshContext 100 100)))) =
   Some [ClearRect 0 0 100 100,
     Stroke [MoveTo \<lparr>px = Some 50, py = Some 50\<rparr>, LineTo \<lparr>px = Some 75, py = Some 25\<rparr>]
       1 ''round'' ''round'' ''rgb(0,0,0,0.25)'',
     Stroke [MoveTo \<lparr>px = Some 75, py = Some 25\<rparr>, LineTo \<lparr>px = Some 0, py = Some 0\<rparr>]
       1 ''round'' ''round'' ''rgb(0,0,0,0.25)'',
     Stroke [MoveTo \<lparr>px = Some 0, py = Some 100\<rparr>, LineTo \<lparr>px = Some 100, py = Some 75\<rparr>]
       1 ''round'' ''round'' ''rgb(0,0,0,0.25)'']"
proof -
  have bg: "paintBackground (sampleProps\<lparr>pathResolution := r\<rparr>) = paintBackground sampleProps" for r
    by (intro ext) (simp add: paintBackground_def)
  have all: "paintAll (sampleProps\<lparr>duration := 0\<rparr>)
      (allSegments (sampleProps\<lparr>duration := 0\<rparr>) [routeA, routeB])
      (paintBackground (sampleProps\<lparr>duration := 0\<rparr>) (freshContext 100 100)) =
    \<lparr>canvasWidth = 100, canvasHeight = 100, lineWidth = 1,
     lineCap = ''round'', lineJoin = ''round'',
     strokeStyle = ''rgb(0,0,0,0.25)'', fillStyle = ''#000000'',
     path = [MoveTo \<lparr>px = Some 0, py = Some 100\<rparr>, LineTo \<lparr>px = Some 100, py = Some 75\<rparr>],
     calls = [ClearRect 0 0 100 100,
        Stroke [MoveTo \<lparr>px = Some 50, py = Some 50\<rparr>, LineTo \<lparr>px = Some 75, py = Some 25\<rparr>]
          1 ''round'' ''round'' ''rgb(0,0,0,0.25)'',
        Stroke [MoveTo \<lparr>px = Some 75, py = Some 25\<rparr>, LineTo \<lparr>px = Some 0, py = Some 0\<rparr>]
          1 ''round'' ''round'' ''rgb(0,0,0,0.25)'',
        Stroke [MoveTo \<lparr>px = Some 0, py = Some 100\<rparr>, LineTo \<lparr>px = Some 100, py = Some 75\<rparr>]
          1 ''round'' ''round'' ''rgb(0,0,0,0.25)'']\<rparr>"
    by (simp add: eval_defs allSegments_def routeSegments_def segments_def)
  show ?thesis
    using invalid_resolution_rejected [of "[routeA, routeB]" "sampleProps\<lparr>pathResolution := 0\<rparr>"
        sampleTicks "freshContext 100 100"]
      invalid_resolution_rejected [of "[routeA, routeB]" "sampleProps\<lparr>pathResolution := 3 / 2\<rparr>"
        sampleTicks "freshContext 100 100"]
      invalid_resolution_rejected [of "[routeA, routeB]" "sampleProps\<lparr>duration := 0\<rparr>"
        sampleTicks "freshContext 100 100"]
    unfolding bg all
    by (simp add: sampleProps_def freshContext_def)
qed

text \<open>
  The claim as stated fails for a render call without routes: the resolution 0 raises no
  error there.
\<close>

theorem invalid_resolution_counterexample:
  "renderRoutes (sampleProps\<lparr>pathResolution := 0\<rparr>) [] (Some (freshContext 100 100)) =
     Completed (freshContext 100 100\<lparr>calls := [ClearRect 0 0 100 100]\<rparr>)"
  by (simp add: renderRoutes_def paintBackground_def clearRect_def sampleProps_def
      freshContext_def)


section \<open>Routes without a segment\<close>

lemma segments_short: "length ws < 2 \<Longrightarrow> segments ws = []"
  by (cases ws) (simp_all add: segments_def)

text \<open>
  C10. With a duration of zero and a valid resolution, a route whose decimated waypoint
  sequence has fewer than two waypoints draws nothing: its loop returns the context
  unchanged, the render call gives the same result as without that route, and it
  completes.
\<close>

theorem short_route_draws_nothing:
  assumes "duration props = 0" and "0 < pathResolution props" and "pathResolution props \<le> 1"
    and "length (waypointsToRender (pathResolution props) (waypoints route)) < 2"
  shows "drawAll props (waypointsToRender (pathResolution props) (waypoints route)) 1 c = Inr c \<and>
         renderRoutes props [route] (Some c) = Completed (paintBackground props c) \<and>
         renderRoutes props (before @ route # after) (Some c) =
           renderRoutes props (before @ after) (Some c) \<and>
         (\<exists>c'. renderRoutes props (before @ route # after) (Some c) = Completed c')"
proof -
  have none: "routeSegments props route = []"
    unfolding routeSegments_def using assms(4) by (rule segments_short)
  then have "drawAll props (waypointsToRender (pathResolution props) (waypoints route)) 1 c = Inr c"
    by (simp add: drawAll_paintAll routeSegments_def paintAll_Nil)
  moreover have "allSegments props [route] = []"
    and "allSegments props (before @ route # after) = allSegments props (before @ after)"
    using none by (simp_all add: allSegments_def)
  moreover have loop:
    "routeLoop props rs' c' = Completed (paintAll props (allSegments props rs') c')" for rs' c'
    using assms(1-3) by (rule routeLoop_instant)
  ultimately show ?thesis
    unfolding renderRoutes_def option.case loop by (simp add: paintAll_Nil)
qed

theorem short_route_draws_nothing_witness:
  "duration (sampleProps\<lparr>duration := 0\<rparr>) = 0 \<and>
   0 < pathResolution (sampleProps\<lparr>duration := 0\<rparr>) \<and>
   pathResolution (sampleProps\<lparr>duration := 0\<rparr>) \<le> 1 \<and>
   length (waypointsToRender (pathResolution (sampleProps\<lparr>duration := 0\<rparr>))
     (waypoints pointRoute)) < 2 \<and>
   renderRoutes (sampleProps\<lparr>duration := 0\<rparr>) [pointRoute] (Some (freshContext 100 100)) =
     Completed (freshContext 100 100\<lparr>calls := [ClearRect 0 0 100 100]\<rparr>) \<and>
   renderRoutes (sampleProps\<lparr>duration := 0\<rparr>) [routeA, pointRoute, routeB]
       (Some (freshContext 100 100)) =
     renderRoutes (sampleProps\<lparr>duration := 0\<rparr>) [routeA, routeB] (Some (freshContext 100 100))"
proof -
  have short: "length (waypointsToRender (pathResolution (sampleProps\<lparr>duration := 0\<rparr>))
      (waypoints pointRoute)) < 2"
    by (simp add: length_waypointsToRender pointRoute_def)
  have bg: "paintBackground (sampleProps\<lparr>duration := 0\<rparr>) (freshContext 100 100) =
      freshContext 100 100\<lparr>calls := [ClearRect 0 0 100 100]\<rparr>"
    by (simp add: paintBackground_def clearRect_def sampleProps_def freshContext_def)
  show ?thesis
    using short
      short_route_draws_nothing [of "sampleProps\<lparr>duration := 0\<rparr>" pointRoute
        "freshContext 100 100" "[routeA]" "[routeB]"]
    unfolding bg by (simp add: sampleProps_def)
qed

section \<open>The catch-up policy of the animation\<close>

text \<open>
  C5, as amended. For a track of \<open>n \<ge> 2\<close> waypoints and a positive duration the budget of
  a segment is \<open>(duration / n) * 0.8\<close>. The first tick draws exactly one segment, the one
  from waypoint 0 to waypoint 1, and moves the cursor to 2. On a later tick, with the
  cursor before the end of the track: when the time since the last draw is at least the
  budget, the tick draws the next \<open>m\<close> segments in order and moves the cursor by \<open>m\<close>,
  where \<open>m\<close> is the smaller of \<open>\<lceil>elapsed / budget\<rceil>\<close> and the number of waypoints left,
  and \<open>m \<ge> 1\<close>; otherwise it draws nothing.
\<close>

theorem catch_up_policy:
  fixes props :: Props and ws :: "Coords list" and tk :: Tick and st :: AnimState and t :: real
  defines "budget \<equiv> duration props / real (length ws) * (8 / 10)"
  defines "elapsed \<equiv> timestamp tk - t"
  defines "m \<equiv> min (nat \<lceil>elapsed / budget\<rceil>) (length ws - waypointIndex st)"
  assumes "2 \<le> length ws" and "0 < duration props"
  shows "delay props ws = Some budget \<and>
    step props ws tk (taskState (animateRenderWaypoints ws rest), c) =
      Inr (\<lparr>waypointIndex = 2, lastPointAddedAtTime = Some (now tk)\<rparr>,
           paintPath props (ws ! 0) (ws ! 1) c) \<and>
    calls (paintPath props (ws ! 0) (ws ! 1) c) = calls c @ [strokeOf props c (ws ! 0, ws ! 1)] \<and>
    (lastPointAddedAtTime st = Some t \<and> 1 \<le> waypointIndex st \<and> waypointIndex st < length ws \<longrightarrow>
       (budget \<le> elapsed \<longrightarrow>
          step props ws tk (st, c) =
            Inr (st\<lparr>waypointIndex := waypointIndex st + m,
                     lastPointAddedAtTime := Some (now tk)\<rparr>,
                 paintAll props (take m (drop (waypointIndex st - 1) (segments ws))) c) \<and>
          1 \<le> m \<and>
          calls (paintAll props (take m (drop (waypointIndex st - 1) (segments ws))) c) =
            calls c @ map (strokeOf props c) (take m (drop (waypointIndex st - 1) (segments ws))) \<and>
          length (take m (drop (waypointIndex st - 1) (segments ws))) = m) \<and>
       (elapsed < budget \<longrightarrow> step props ws tk (st, c) = Inr (st, c)))"
proof -
  have "0 < length ws"
    using assms(4) by linarith
  then have n: "0 < real (length ws)"
    by (simp only: of_nat_0_less_iff)
  then have budget: "0 < budget"
    using assms(5) by (simp add: budget_def)
  have d: "delay props ws = Some budget"
    using n by (simp add: delay_def js_div_def budget_def)
  have lt: "Suc 0 < length ws"
    using assms(4) by simp
  have first: "step props ws tk (taskState (animateRenderWaypoints ws rest), c) =
      Inr (\<lparr>waypointIndex = 2, lastPointAddedAtTime = Some (now tk)\<rparr>,
           paintPath props (ws ! 0) (ws ! 1) c)"
    using addPath_at_index[OF lt, of props c]
    by (simp add: step_def animateRenderWaypoints_def)
  have later: "step props ws tk (st, c) =
        Inr (st\<lparr>waypointIndex := waypointIndex st + m,
                 lastPointAddedAtTime := Some (now tk)\<rparr>,
             paintAll props (take m (drop (waypointIndex st - 1) (segments ws))) c) \<and>
      1 \<le> m \<and>
      calls (paintAll props (take m (drop (waypointIndex st - 1) (segments ws))) c) =
        calls c @ map (strokeOf props c) (take m (drop (waypointIndex st - 1) (segments ws))) \<and>
      length (take m (drop (waypointIndex st - 1) (segments ws))) = m"
    if st: "lastPointAddedAtTime st = Some t" "1 \<le> waypointIndex st" "waypointIndex st < length ws"
      and due: "budget \<le> elapsed"
  proof -
    have "1 \<le> elapsed / budget"
      using due budget by simp
    then have "1 \<le> nat \<lceil>elapsed / budget\<rceil>"
      by linarith
    moreover have "1 \<le> length ws - waypointIndex st"
      using st(3) by linarith
    ultimately have m1: "1 \<le> m"
      unfolding m_def by (rule min.boundedI)
    have "step props ws tk (st, c) =
        catchUp props ws tk (nat \<lceil>elapsed / budget\<rceil>) (st, c)"
      using st(1) d due by (simp add: step_def Math_ceil_def elapsed_def)
    also have "\<dots> =
        Inr (if m = 0 then st
             else st\<lparr>waypointIndex := waypointIndex st + m,
                      lastPointAddedAtTime := Some (now tk)\<rparr>,
             paintAll props (take m (drop (waypointIndex st - 1) (segments ws))) c)"
      unfolding m_def by (rule catchUp_spec[OF st(2)])
    finally have "step props ws tk (st, c) =
        Inr (st\<lparr>waypointIndex := waypointIndex st + m,
                 lastPointAddedAtTime := Some (now tk)\<rparr>,
             paintAll props (take m (drop (waypointIndex st - 1) (segments ws))) c)"
      using m1 by simp
    moreover have "length (take m (drop (waypointIndex st - 1) (segments ws))) = m"
      using st(2) by (simp add: length_segments m_def)
    ultimately show ?thesis
      using m1 by (simp add: calls_paintAll)
  qed
  have early: "step props ws tk (st, c) = Inr (st, c)"
    if "lastPointAddedAtTime st = Some t" and "elapsed < budget"
    using that d by (simp add: step_def elapsed_def)
  show ?thesis
    using d first later early by (simp add: calls_paintPath)
qed

theorem catch_up_policy_witness:
  "2 \<le> length (waypoints longRoute) \<and> 0 < duration sampleProps \<and>
   delay sampleProps (waypoints longRoute) = Some 120 \<and>
   map_sum id (\<lambda>(st, c). (st, calls c))
     (step sampleProps (waypoints longRoute) \<lparr>timestamp = 0, now = 1\<rparr>
        (\<lparr>waypointIndex = 1, lastPointAddedAtTime = None\<rparr>, freshContext 100 100)) =
     Inr (\<lparr>waypointIndex = 2, lastPointAddedAtTime = Some 1\<rparr>,
          [Stroke [MoveTo \<lparr>px = Some 50, py = Some 50\<rparr>, LineTo \<lparr>px = Some 60, py = Some 40\<rparr>]
             1 ''round'' ''round'' ''rgb(0,0,0,0.25)'']) \<and>
   map_sum id (\<lambda>(st, c). (st, calls c))
     (step sampleProps (waypoints longRoute) \<lparr>timestamp = 201, now = 202\<rparr>
        (\<lparr>waypointIndex = 2, lastPointAddedAtTime = Some 1\<rparr>, freshContext 100 100)) =
     Inr (\<lparr>waypointIndex = 4, lastPointAddedAtTime = Some 202\<rparr>,
          [Stroke [MoveTo \<lparr>px = Some 60, py = Some 40\<rparr>, LineTo \<lparr>px = Some 70, py = Some 30\<rparr>]
             1 ''round'' ''round'' ''rgb(0,0,0,0.25)'',
           Stroke [MoveTo \<lparr>px = Some 70, py = Some 30\<rparr>, LineTo \<lparr>px = Some 80, py = Some 20\<rparr>]
             1 ''round'' ''round'' ''rgb(0,0,0,0.25)'']) \<and>
   step sampleProps (waypoints longRoute) \<lparr>timestamp = 100, now = 101\<rparr>
        (\<lparr>waypointIndex = 2, lastPointAddedAtTime = Some 1\<rparr>, freshContext 100 100) =
     Inr (\<lparr>waypointIndex = 2, lastPointAddedAtTime = Some 1\<rparr>, freshContext 100 100)"
  using catch_up_policy [where props = sampleProps and ws = "waypoints longRoute"
      and tk = "\<lparr>timestamp = 201, now = 202\<rparr>"
      and st = "\<lparr>waypointIndex = 2, lastPointAddedAtTime = Some 1\<rparr>" and t = 1
      and c = "freshContext 100 100" and rest = "[]"]
    catch_up_policy [where props = sampleProps and ws = "waypoints longRoute"
      and tk = "\<lparr>timestamp = 0, now = 1\<rparr>"
      and st = "\<lparr>waypointIndex = 2, lastPointAddedAtTime = Some 1\<rparr>" and t = 1
      and c = "freshContext 100 100" and rest = "[]"]
    catch_up_policy [where props = sampleProps and ws = "waypoints longRoute"
      and tk = "\<lparr>timestamp = 100, now = 101\<rparr>"
      and st = "\<lparr>waypointIndex = 2, lastPointAddedAtTime = Some 1\<rparr>" and t = 1
      and c = "freshContext 100 100" and rest = "[]"]
  by (simp add: eval_defs segments_def)

text \<open>
  The claim as stated fails for a track of one waypoint: the first tick of its animation
  draws no segment, the callback raises a TypeError and the animation never completes.
\<close>

theorem catch_up_policy_counterexample:
  "runFrames sampleProps [\<lparr>timestamp = 0, now = 1\<rparr>]
     (renderRoutes sampleProps [pointRoute] (Some (freshContext 100 100))) =
   Stalled TypeError (freshContext 100 100\<lparr>calls := [ClearRect 0 0 100 100]\<rparr>)"
  by (simp add: eval_defs)

section \<open>Cancellation of the animation in flight\<close>

lemma frames_cancelAll:
  "frames (cancelAll i w) = filter (\<lambda>(h, _). \<not> (i \<le> h \<and> h < 99999)) (frames w)"
proof (induction i w rule: cancelAll.induct)
  case (1 i w)
  show ?case
  proof (cases "i < 99999")
    case True
    have "frames (cancelAll i w) =
        filter (\<lambda>(h, _). \<not> (i + 1 \<le> h \<and> h < 99999)) (filter (\<lambda>(h, _). h \<noteq> i) (frames w))"
      using True "1.IH"[OF True]
      by (subst cancelAll.simps) (simp add: cancelAnimationFrame_def clearInterval_def)
    also have "\<dots> = filter (\<lambda>(h, _). \<not> (i \<le> h \<and> h < 99999)) (frames w)"
      using True by (auto intro: filter_cong)
    finally show ?thesis .
  next
    case False
    then have "cancelAll i w = w"
      by (subst cancelAll.simps) simp
    moreover have "filter (\<lambda>(h, _). \<not> (i \<le> h \<and> h < 99999)) (frames w) = frames w"
      using False by (auto intro: filter_True)
    ultimately show ?thesis by simp
  qed
qed

lemma rest_cancelAll:
  "nextHandle (cancelAll i w) = nextHandle w \<and> surface (cancelAll i w) = surface w"
proof (induction i w rule: cancelAll.induct)
  case (1 i w)
  show ?case
  proof (cases "i < 99999")
    case True
    then show ?thesis
      using "1.IH"[OF True]
      by (subst (1 2) cancelAll.simps) (simp add: cancelAnimationFrame_def clearInterval_def)
  next
    case False
    then show ?thesis
      by (subst (1 2) cancelAll.simps) simp
  qed
qed

lemma cancelAll_eq:
  "cancelAll i w = w\<lparr>frames := filter (\<lambda>(h, _). \<not> (i \<le> h \<and> h < 99999)) (frames w)\<rparr>"
proof -
  have "frames (cancelAll i w) = frames (w\<lparr>frames := filter (\<lambda>(h, _). \<not> (i \<le> h \<and> h < 99999)) (frames w)\<rparr>)"
    by (simp add: frames_cancelAll)
  moreover have "Window.more (cancelAll i w) = Window.more w"
    by (induction i w rule: cancelAll.induct)
      (subst cancelAll.simps, simp add: cancelAnimationFrame_def clearInterval_def)
  ultimately show ?thesis
    using rest_cancelAll[of i w] by (intro Window.equality) simp_all
qed

lemma sweep_cancels_below_limit:
  assumes "\<And>h p. (h, p) \<in> set (frames w) \<Longrightarrow> 1 \<le> h \<and> h < 99999"
  shows "frames (cancelAll 1 w) = []"
  unfolding frames_cancelAll using assms by (auto simp: filter_empty_conv)

lemmas window_defs =
  useEffect_def cancelAll_eq settle_def requestAnimationFrame_def animationFrame_def
  propsA_def propsB_def lateWindow_def earlyWindow_def

lemma early_render_is_cancelled:
  "map_option calls (surface (animationFrame \<lparr>timestamp = 1000, now = 1001\<rparr>
     (animationFrame \<lparr>timestamp = 0, now = 1\<rparr>
        (useEffect propsB (useEffect propsA earlyWindow))))) =
   Some [ClearRect 0 0 100 100, ClearRect 0 0 100 100,
     Stroke [MoveTo \<lparr>px = Some 0, py = Some 100\<rparr>, LineTo \<lparr>px = Some 100, py = Some 75\<rparr>]
       1 ''round'' ''round'' ''rgb(0,0,0,0.25)'']"
  by (simp add: window_defs eval_defs)

text \<open>
  C9. The sweep of the effect cancels the handles 1 to 99998 only. In a window that has
  handed out 99998 handles, the first render of route A awaits the frame with handle
  99999; the second effect, for route B, leaves that frame pending. Both animations then
  run: after the second clearing of the canvas the surface receives the strokes of A
  among those of B, whereas a render of B alone gives the clearing and the stroke of B.
\<close>

theorem stale_animation_survives_sweep:
  "map (\<lambda>(h, p, t). (h, routes p)) (frames (useEffect propsB (useEffect propsA lateWindow))) =
     [(99999, [routeA]), (100000, [routeB])] \<and>
   map_option calls (surface (animationFrame \<lparr>timestamp = 1000, now = 1001\<rparr>
     (animationFrame \<lparr>timestamp = 0, now = 1\<rparr>
        (useEffect propsB (useEffect propsA lateWindow))))) =
   Some [ClearRect 0 0 100 100, ClearRect 0 0 100 100,
     Stroke [MoveTo \<lparr>px = Some 50, py = Some 50\<rparr>, LineTo \<lparr>px = Some 75, py = Some 25\<rparr>]
       1 ''round'' ''round'' ''rgb(0,0,0,0.25)'',
     Stroke [MoveTo \<lparr>px = Some 0, py = Some 100\<rparr>, LineTo \<lparr>px = Some 100, py = Some 75\<rparr>]
       1 ''round'' ''round'' ''rgb(0,0,0,0.25)'',
     Stroke [MoveTo \<lparr>px = Some 75, py = Some 25\<rparr>, LineTo \<lparr>px = Some 0, py = Some 0\<rparr>]
       1 ''round'' ''round'' ''rgb(0,0,0,0.25)''] \<and>
   map_option calls (surface (animationFrame \<lparr>timestamp = 1000, now = 1001\<rparr>
     (animationFrame \<lparr>timestamp = 0, now = 1\<rparr> (useEffect propsB lateWindow)))) =
   Some [ClearRect 0 0 100 100,
     Stroke [MoveTo \<lparr>px = Some 0, py = Some 100\<rparr>, LineTo \<lparr>px = Some 100, py = Some 75\<rparr>]
       1 ''round'' ''round'' ''rgb(0,0,0,0.25)'']"
  by (simp add: window_defs eval_defs)

end
